theory Spec2Isabelle
  imports Complex_Main
begin

section \<open>JavaScript strings\<close>

text \<open>
  A JavaScript string is a sequence of UTF-16 code units; \<open>length\<close>, \<open>split\<close>,
  \<open>includes\<close> and \<open>trim\<close> all work on code units. The full-width comma U+FF0C that
  the import page looks for is the single code unit 65292.
\<close>

type_synonym jsstring = "nat list"

definition js :: "string \<Rightarrow> jsstring" where
  "js s = map of_char s"

text \<open>\<open>String.prototype.trim\<close> strips WhiteSpace and LineTerminator code units.\<close>

definition isWhiteSpace :: "nat \<Rightarrow> bool" where
  "isWhiteSpace c \<longleftrightarrow>
     c = 9 \<or> c = 10 \<or> c = 11 \<or> c = 12 \<or> c = 13 \<or> c = 32 \<or> c = 160 \<or> c = 5760 \<or>
     (8192 \<le> c \<and> c \<le> 8202) \<or> c = 8232 \<or> c = 8233 \<or> c = 8239 \<or> c = 8287 \<or>
     c = 12288 \<or> c = 65279"

definition trim :: "jsstring \<Rightarrow> jsstring" where
  "trim s = rev (dropWhile isWhiteSpace (rev (dropWhile isWhiteSpace s)))"

text \<open>
  \<open>String.prototype.toLowerCase\<close>. On a string of ASCII code units it folds the
  letters A to Z. On every other string the result is the one of the Unicode case
  conversion of the engine (its case table, special casing and context rules); that
  conversion is not part of the sources and is the parameter \<open>tbl\<close> of everything
  that folds case.
\<close>

type_synonym case_table = "jsstring \<Rightarrow> jsstring"

definition lowerAscii :: "nat \<Rightarrow> nat" where
  "lowerAscii c = (if 65 \<le> c \<and> c \<le> 90 then c + 32 else c)"

definition toLowerCase :: "case_table \<Rightarrow> jsstring \<Rightarrow> jsstring" where
  "toLowerCase tbl s = (if list_all (\<lambda>c. c < 128) s then map lowerAscii s else tbl s)"

section \<open>Plain objects used as dictionaries\<close>

text \<open>
  \<open>Record<string, V>\<close> values are plain objects created by \<open>{}\<close>. Reading \<open>obj[k]\<close>
  returns the own property when there is one and otherwise follows the prototype to
  \<open>Object.prototype\<close>, whose members are functions and objects, never \<open>undefined\<close>,
  \<open>null\<close>, a number or a string. Writing \<open>obj[k] = v\<close> creates an own property,
  except for the key \<open>__proto__\<close>, which is an accessor of \<open>Object.prototype\<close>: with
  a primitive \<open>v\<close> the write does nothing, and with the object's own prototype as
  \<open>v\<close> it leaves the object as it is. These are the only writes to \<open>__proto__\<close>
  the pages below perform.
\<close>

type_synonym 'v jsobject = "jsstring \<rightharpoonup> 'v"

datatype 'v property = Undefined | Own 'v | Inherited

definition Object_prototype_keys :: "jsstring list" where
  "Object_prototype_keys =
     [js ''constructor'', js ''__defineGetter__'', js ''__defineSetter__'',
      js ''hasOwnProperty'', js ''__lookupGetter__'', js ''__lookupSetter__'',
      js ''isPrototypeOf'', js ''propertyIsEnumerable'', js ''toString'',
      js ''valueOf'', js ''__proto__'', js ''toLocaleString'']"

definition getProp :: "'v jsobject \<Rightarrow> jsstring \<Rightarrow> 'v property" where
  "getProp obj k =
     (case obj k of
        Some v \<Rightarrow> Own v
      | None \<Rightarrow> if k \<in> set Object_prototype_keys then Inherited else Undefined)"

definition setProp :: "'v jsobject \<Rightarrow> jsstring \<Rightarrow> 'v \<Rightarrow> 'v jsobject" where
  "setProp obj k v = (if k = js ''__proto__'' then obj else obj(k \<mapsto> v))"

text \<open>\<open>new Set(xs)\<close> keeps the first occurrence of every element, in insertion order.\<close>

definition jsSet :: "'a list \<Rightarrow> 'a list" where
  "jsSet xs = rev (remdups (rev xs))"

section \<open>SymptomsVsCategories.tsx: the reconciliation worklist\<close>

text \<open>
  An API call either throws (network failure, timeout, HTTP error status) or returns the
  parsed body. A JSON value read with \<open>typeof v === 'string'\<close> is a string or anything
  else.
\<close>

datatype 'a api = Throws | Returns 'a

datatype jsval = Str jsstring | NotStr

record scan_data =
  sd_ok :: bool
  sd_inserted :: "int option"
  sd_missing_items :: "jsval list option"

text \<open>\<open>sy_items\<close> holds, for every item of the response, its \<open>symptom\<close> field.\<close>

record symptoms_data =
  sy_ok :: bool
  sy_items :: "jsval list option"

datatype missing_type = new | existing_null

text \<open>
  A selection is \<open>''\<close> (unassigned) or a category id. \<open>ProtoValue\<close> stands for a member
  of \<open>Object.prototype\<close> that a read of the selections object has returned.
\<close>

datatype selection = Unassigned | CategoryId int | ProtoValue

record scan_result =
  inserted :: int
  missing_items :: "jsstring list"

datatype tab = missing | existing

record page_state =
  activeTab :: tab
  autoRefresh :: bool
  result :: "scan_result option"
  missingTypes :: "missing_type jsobject"
  selections :: "selection jsobject"
  page :: nat
  refreshing :: bool
  lastRefreshedAt :: "nat option"

text \<open>\<open>.map(s => typeof s === 'string' ? s.trim() : '').filter(s => !!s)\<close>\<close>

definition cleanList :: "jsval list \<Rightarrow> jsstring list" where
  "cleanList xs = filter (\<lambda>s. s \<noteq> []) (map (\<lambda>v. case v of Str s \<Rightarrow> trim s | NotStr \<Rightarrow> []) xs)"

text \<open>
  \<open>mergedMap\<close> is a \<open>Map\<close>: an association list in insertion order, a key set only
  when the map does not have it yet.
\<close>

definition mapHas :: "('k \<times> 'v) list \<Rightarrow> 'k \<Rightarrow> bool" where
  "mapHas m k \<longleftrightarrow> map_of m k \<noteq> None"

fun mergeInto :: "case_table \<Rightarrow> (jsstring \<times> jsstring) list \<Rightarrow> jsstring list \<Rightarrow> (jsstring \<times> jsstring) list" where
  "mergeInto tbl mergedMap [] = mergedMap"
| "mergeInto tbl mergedMap (s # ss) =
     (let k = toLowerCase tbl s
      in mergeInto tbl (if \<not> mapHas mergedMap k then mergedMap @ [(k, s)] else mergedMap) ss)"

definition mergedList :: "case_table \<Rightarrow> jsstring list \<Rightarrow> jsstring list \<Rightarrow> jsstring list" where
  "mergedList tbl unassignedList missingNew =
     map snd (mergeInto tbl (mergeInto tbl [] unassignedList) missingNew)"

fun buildTypeMap :: "case_table \<Rightarrow> jsstring list \<Rightarrow> jsstring list \<Rightarrow> missing_type jsobject \<Rightarrow> jsstring list \<Rightarrow> missing_type jsobject" where
  "buildTypeMap tbl unassignedNorms missingNorms typeMap [] = typeMap"
| "buildTypeMap tbl unassignedNorms missingNorms typeMap (s # ss) =
     (let k = toLowerCase tbl s
      in buildTypeMap tbl unassignedNorms missingNorms
           (setProp typeMap s
              (if k \<in> set unassignedNorms then existing_null
               else if k \<in> set missingNorms then new else new)) ss)"

definition typeMapOf :: "case_table \<Rightarrow> jsstring list \<Rightarrow> jsstring list \<Rightarrow> jsstring list \<Rightarrow> missing_type jsobject" where
  "typeMapOf tbl unassignedList missingNew merged =
     buildTypeMap tbl (jsSet (map (toLowerCase tbl) unassignedList))
       (jsSet (map (toLowerCase tbl) missingNew))
       Map.empty merged"

text \<open>
  The two requests both scans make. The second is only sent when the first has returned
  with \<open>ok\<close>; \<open>None\<close> is the path into the \<open>catch\<close> block.
\<close>

definition fetchScan :: "scan_data api \<Rightarrow> symptoms_data api \<Rightarrow> (scan_data \<times> jsstring list \<times> jsstring list) option" where
  "fetchScan post get =
     (case post of
        Throws \<Rightarrow> None
      | Returns data \<Rightarrow>
          if \<not> sd_ok data then None
          else (case get of
                  Throws \<Rightarrow> None
                | Returns unassignedResp \<Rightarrow>
                    if \<not> sy_ok unassignedResp then None
                    else Some (data,
                               cleanList (case sy_items unassignedResp of None \<Rightarrow> [] | Some xs \<Rightarrow> xs),
                               cleanList (case sd_missing_items data of None \<Rightarrow> [] | Some xs \<Rightarrow> xs))))"

fun initSel :: "selection jsobject \<Rightarrow> jsstring list \<Rightarrow> selection jsobject" where
  "initSel sel [] = sel"
| "initSel sel (s # ss) = initSel (setProp sel s Unassigned) ss"

text \<open>
  \<open>handleScan\<close>: \<open>setResult(null)\<close> first; a failure leaves the rest of the state as it
  was (the error toast is not part of the state).
\<close>

definition handleScan :: "case_table \<Rightarrow> page_state \<Rightarrow> scan_data api \<Rightarrow> symptoms_data api \<Rightarrow> page_state" where
  "handleScan tbl st post get =
     (case fetchScan post get of
        None \<Rightarrow> st\<lparr>result := None\<rparr>
      | Some (data, unassignedList, missingNew) \<Rightarrow>
          let merged = mergedList tbl unassignedList missingNew
          in st\<lparr>missingTypes := typeMapOf tbl unassignedList missingNew merged,
                result := Some \<lparr>inserted = (case sd_inserted data of None \<Rightarrow> 0 | Some n \<Rightarrow> n),
                                missing_items = merged\<rparr>,
                selections := initSel Map.empty merged,
                page := 1\<rparr>)"

text \<open>\<open>for (const s of mergedList) next[s] = prev[s] ?? ''\<close>\<close>

fun carrySelections :: "selection jsobject \<Rightarrow> selection jsobject \<Rightarrow> jsstring list \<Rightarrow> selection jsobject" where
  "carrySelections prev next [] = next"
| "carrySelections prev next (s # ss) =
     carrySelections prev
       (setProp next s
          (case getProp prev s of
             Undefined \<Rightarrow> Unassigned
           | Own v \<Rightarrow> v
           | Inherited \<Rightarrow> ProtoValue)) ss"

text \<open>
  \<open>changed\<close>: the sizes differ, or else some element of \<open>newSet\<close> is not in \<open>curSet\<close>.
\<close>

definition changed :: "jsstring list \<Rightarrow> jsstring list \<Rightarrow> bool" where
  "changed curSet newSet =
     (if length curSet \<noteq> length newSet then True
      else list_ex (\<lambda>n. n \<notin> set curSet) newSet)"

text \<open>
  What a \<open>silentScan\<close> function object reads from the render that created it: the
  \<open>result\<close> and \<open>refreshing\<close> constants of that render.
\<close>

record closure =
  seen_result :: "scan_result option"
  seen_refreshing :: bool

definition closure_of :: "page_state \<Rightarrow> closure" where
  "closure_of st = \<lparr>seen_result = result st, seen_refreshing = refreshing st\<rparr>"

definition curSetOf :: "case_table \<Rightarrow> closure \<Rightarrow> jsstring list" where
  "curSetOf tbl cl =
     jsSet (map (toLowerCase tbl)
       (filter (\<lambda>s. s \<noteq> []) (map trim (case seen_result cl of None \<Rightarrow> [] | Some r \<Rightarrow> missing_items r))))"

text \<open>
  \<open>silentScan\<close>, run to completion: \<open>cl\<close> is what the function reads from its closure,
  \<open>st\<close> the state its setters update (\<open>setSelections\<close> is given an updater, so it reads
  the live selections), \<open>now\<close> the clock.
\<close>

definition silentScan :: "case_table \<Rightarrow> closure \<Rightarrow> page_state \<Rightarrow> scan_data api \<Rightarrow> symptoms_data api \<Rightarrow> nat \<Rightarrow> page_state" where
  "silentScan tbl cl st post get now =
     (if seen_refreshing cl then st
      else (case fetchScan post get of
              None \<Rightarrow> st\<lparr>refreshing := False\<rparr>
            | Some (data, unassignedList, missingNew) \<Rightarrow>
                let merged = mergedList tbl unassignedList missingNew;
                    curSet = curSetOf tbl cl;
                    newSet = jsSet (map (toLowerCase tbl) merged);
                    st' = (if changed curSet newSet
                           then st\<lparr>missingTypes := typeMapOf tbl unassignedList missingNew merged,
                                    result := Some \<lparr>inserted = (case sd_inserted data of None \<Rightarrow> 0 | Some n \<Rightarrow> n),
                                                    missing_items = merged\<rparr>,
                                    selections := carrySelections (selections st) Map.empty merged,
                                    page := 1\<rparr>
                           else st)
                in st'\<lparr>lastRefreshedAt := Some now, refreshing := False\<rparr>))"

text \<open>
  The component: its live state, and the \<open>silentScan\<close> closure the countdown interval
  holds. The countdown effect has the dependencies
  \<open>[activeTab, autoRefresh, refreshIntervalSec]\<close>: it runs after the first render and
  again only when one of them changes, returns early unless the missing tab is shown with
  auto-refresh on, and otherwise registers an interval whose callback calls the
  \<open>silentScan\<close> of the render that ran the effect. The Refresh button calls the
  \<open>silentScan\<close> of the current render.
\<close>

record component =
  live :: page_state
  poll_closure :: "closure option"

definition initial_state :: page_state where
  "initial_state =
     \<lparr>activeTab = missing, autoRefresh = True, result = None, missingTypes = Map.empty,
      selections = Map.empty, page = 1, refreshing = False, lastRefreshedAt = None\<rparr>"

definition countdown_effect :: "page_state \<Rightarrow> closure option" where
  "countdown_effect st =
     (if activeTab st \<noteq> missing \<or> \<not> autoRefresh st then None else Some (closure_of st))"

definition mount :: component where
  "mount = \<lparr>live = initial_state, poll_closure = countdown_effect initial_state\<rparr>"

definition scan_done :: "case_table \<Rightarrow> component \<Rightarrow> scan_data api \<Rightarrow> symptoms_data api \<Rightarrow> component" where
  "scan_done tbl c post get = c\<lparr>live := handleScan tbl (live c) post get\<rparr>"

definition poll_tick :: "case_table \<Rightarrow> component \<Rightarrow> scan_data api \<Rightarrow> symptoms_data api \<Rightarrow> nat \<Rightarrow> component" where
  "poll_tick tbl c post get now =
     (case poll_closure c of
        None \<Rightarrow> c
      | Some cl \<Rightarrow> c\<lparr>live := silentScan tbl cl (live c) post get now\<rparr>)"

definition refresh_click :: "case_table \<Rightarrow> component \<Rightarrow> scan_data api \<Rightarrow> symptoms_data api \<Rightarrow> nat \<Rightarrow> component" where
  "refresh_click tbl c post get now =
     c\<lparr>live := silentScan tbl (closure_of (live c)) (live c) post get now\<rparr>"

definition set_autoRefresh :: "component \<Rightarrow> bool \<Rightarrow> component" where
  "set_autoRefresh c v =
     (let st = (live c)\<lparr>autoRefresh := v\<rparr>
      in \<lparr>live = st,
          poll_closure = (if v \<noteq> autoRefresh (live c) then countdown_effect st else poll_closure c)\<rparr>)"

section \<open>ImportFiles.tsx: upload, preview and commit\<close>

datatype step = Select | Preview | ModeStep | Importing | Done | Manual

datatype import_mode = Overwrite | Append

text \<open>
  The preview response, as \<open>handleUpload\<close> reads it (\<open>d.csv_columns || []\<close> and the
  like read an absent list as empty, \<open>!!d.can_import\<close> an absent flag as false).
\<close>

record preview_resp =
  pr_ok :: bool
  pr_token :: jsstring
  pr_filename :: jsstring
  pr_total_rows :: int
  pr_csv_columns :: "jsstring list"
  pr_expected_columns :: "jsstring list"
  pr_missing_in_csv :: "jsstring list"
  pr_missing_in_db :: "jsstring list"
  pr_csv_to_expected :: "(jsstring \<times> jsstring option) list"
  pr_expected_to_db :: "(jsstring \<times> jsstring option) list"
  pr_can_import :: bool
  pr_preview :: "(jsstring \<times> jsstring) list list"

record commit_resp =
  cr_ok :: bool
  cr_inserted :: int
  cr_total_rows_in_file :: int

text \<open>
  What \<open>fetchWithTimeout\<close> gives: it throws, or there is a status and a body that
  parses as JSON or does not.
\<close>

datatype 'a fetched = FetchFails | Fetched nat "'a option"

definition res_ok :: "nat \<Rightarrow> bool" where
  "res_ok status \<longleftrightarrow> 200 \<le> status \<and> status \<le> 299"

text \<open>The toasts shown with \<open>message.error\<close> and \<open>message.success\<close>.\<close>

datatype notice =
    FileTooLarge real
  | ServerError nat
  | InvalidResponseFormat
  | ErrorDetail
  | RequestFailed
  | ImportSuccessful int int
  | ManualInputRejected

record upload_file =
  file_size :: nat
  file_text :: jsstring

type_synonym json_object = "(string \<times> jsstring) list"

datatype request = PreviewRequest upload_file | CommitRequest json_object | StatsRequest

datatype cell_error =
    GenderError | AgeError | DecimalError | DateFormatError | ChineseCommaError
  | InvalidRiskFactors

record import_state =
  step :: step
  token :: jsstring
  filename :: jsstring
  totalRows :: int
  csvColumns :: "jsstring list"
  expectedColumns :: "jsstring list"
  missingCsv :: "jsstring list"
  missingDb :: "jsstring list"
  canImport :: bool
  previewRows :: "(jsstring \<times> jsstring) list list"
  csvMap :: "(jsstring \<times> jsstring option) list"
  dbMap :: "(jsstring \<times> jsstring option) list"
  mode :: import_mode
  loading :: bool
  overwriteConfirmed :: bool
  refreshModalOpen :: bool
  manualRows :: "(jsstring \<rightharpoonup> jsstring) list"
  manualErrors :: "(jsstring \<rightharpoonup> cell_error) list"
  notices :: "notice list"

text \<open>
  \<open>MAX_UPLOAD_MB\<close>: \<open>n\<close> is \<open>Number(VITE_MAX_UPLOAD_MB)\<close>, with \<open>None\<close> for
  \<open>NaN\<close> and the infinities. A file size is below \<open>2^53\<close> and the product with
  \<open>1024 * 1024\<close> is exact in binary floating point, so the comparison is the one on
  the reals.
\<close>

definition MAX_UPLOAD_MB :: "real option \<Rightarrow> real" where
  "MAX_UPLOAD_MB n = (case n of Some x \<Rightarrow> if x > 0 then x else 100 | None \<Rightarrow> 100)"

definition notify :: "import_state \<Rightarrow> notice \<Rightarrow> import_state" where
  "notify st m = st\<lparr>notices := notices st @ [m]\<rparr>"

text \<open>
  \<open>handleUpload\<close>, run to completion: the new state and the requests sent.
  Every \<open>throw\<close> ends in the \<open>catch\<close> block, which shows the message;
  \<open>finally\<close> clears \<open>loading\<close>.
\<close>

definition handleUpload :: "real option \<Rightarrow> import_state \<Rightarrow> upload_file \<Rightarrow> preview_resp fetched \<Rightarrow> import_state \<times> request list" where
  "handleUpload env st f res =
     (if real (file_size f) > MAX_UPLOAD_MB env * 1024 * 1024
      then ((notify st (FileTooLarge (MAX_UPLOAD_MB env)))\<lparr>loading := False\<rparr>, [])
      else (case res of
              FetchFails \<Rightarrow> ((notify st RequestFailed)\<lparr>loading := False\<rparr>, [PreviewRequest f])
            | Fetched status body \<Rightarrow>
                if status = 413
                then ((notify st (FileTooLarge (MAX_UPLOAD_MB env)))\<lparr>loading := False\<rparr>, [PreviewRequest f])
                else if \<not> res_ok status
                then ((notify st (ServerError status))\<lparr>loading := False\<rparr>, [PreviewRequest f])
                else (case body of
                        None \<Rightarrow> ((notify st InvalidResponseFormat)\<lparr>loading := False\<rparr>, [PreviewRequest f])
                      | Some d \<Rightarrow>
                          if \<not> pr_ok d
                          then ((notify st ErrorDetail)\<lparr>loading := False\<rparr>, [PreviewRequest f])
                          else (st\<lparr>token := pr_token d,
                                   filename := pr_filename d,
                                   totalRows := pr_total_rows d,
                                   csvColumns := pr_csv_columns d,
                                   expectedColumns := pr_expected_columns d,
                                   missingCsv := pr_missing_in_csv d,
                                   missingDb := pr_missing_in_db d,
                                   canImport := pr_can_import d,
                                   previewRows := pr_preview d,
                                   csvMap := pr_csv_to_expected d,
                                   dbMap := pr_expected_to_db d,
                                   step := Preview,
                                   loading := False\<rparr>, [PreviewRequest f]))))"

definition modeString :: "import_mode \<Rightarrow> jsstring" where
  "modeString m = (case m of Overwrite \<Rightarrow> js ''overwrite'' | Append \<Rightarrow> js ''append'')"

text \<open>
  \<open>handleCommit\<close>: the body of the request is \<open>JSON.stringify({ token, mode })\<close>. A
  failure shows the message and goes back to the mode step; success goes to the result
  step, reloads the statistics and opens the refresh dialogue.
\<close>

definition commitBody :: "import_state \<Rightarrow> json_object" where
  "commitBody st = [(''token'', token st), (''mode'', modeString (mode st))]"

definition commitFailed :: "import_state \<Rightarrow> notice \<Rightarrow> import_state" where
  "commitFailed st m = (notify st m)\<lparr>step := ModeStep, loading := False\<rparr>"

definition handleCommit :: "import_state \<Rightarrow> commit_resp fetched \<Rightarrow> import_state \<times> request list" where
  "handleCommit st res =
     (if token st = [] then (st, [])
      else (case res of
              FetchFails \<Rightarrow> (commitFailed st RequestFailed, [CommitRequest (commitBody st)])
            | Fetched status body \<Rightarrow>
                if \<not> res_ok status
                then (commitFailed st (ServerError status), [CommitRequest (commitBody st)])
                else (case body of
                        None \<Rightarrow> (commitFailed st InvalidResponseFormat, [CommitRequest (commitBody st)])
                      | Some d \<Rightarrow>
                          if \<not> cr_ok d
                          then (commitFailed st ErrorDetail, [CommitRequest (commitBody st)])
                          else ((notify st (ImportSuccessful (cr_inserted d) (cr_total_rows_in_file d)))
                                  \<lparr>step := Done, refreshModalOpen := True, loading := False\<rparr>,
                                [CommitRequest (commitBody st), StatsRequest]))))"

definition startImport :: "import_state \<Rightarrow> commit_resp fetched \<Rightarrow> import_state \<times> request list" where
  "startImport st res =
     (if \<not> canImport st then (st, [])
      else handleCommit (st\<lparr>step := Importing\<rparr>) res)"

text \<open>
  The controls. The Next button of the preview step and the Start import button of the
  mode step are rendered in their step only; a disabled button does not call its
  handler. Ticking the checkbox is possible in overwrite mode only, and the effect on
  \<open>mode\<close> clears the confirmation whenever the mode becomes append.
\<close>

definition next_disabled :: "import_state \<Rightarrow> bool" where
  "next_disabled st \<longleftrightarrow> \<not> canImport st"

definition click_next :: "import_state \<Rightarrow> import_state" where
  "click_next st = (if step st = Preview \<and> \<not> next_disabled st then st\<lparr>step := ModeStep\<rparr> else st)"

definition startImport_disabled :: "import_state \<Rightarrow> bool" where
  "startImport_disabled st \<longleftrightarrow>
     \<not> canImport st \<or> loading st \<or> (mode st = Overwrite \<and> \<not> overwriteConfirmed st)"

definition click_startImport :: "import_state \<Rightarrow> commit_resp fetched \<Rightarrow> import_state \<times> request list" where
  "click_startImport st res =
     (if step st = ModeStep \<and> \<not> startImport_disabled st then startImport st res else (st, []))"

definition setMode :: "import_state \<Rightarrow> import_mode \<Rightarrow> import_state" where
  "setMode st m =
     (let st' = st\<lparr>mode := m\<rparr>
      in if m = Append \<and> mode st \<noteq> Append then st'\<lparr>overwriteConfirmed := False\<rparr> else st')"

definition check_overwriteConfirmed :: "import_state \<Rightarrow> bool \<Rightarrow> import_state" where
  "check_overwriteConfirmed st v =
     (if step st = ModeStep \<and> mode st = Overwrite then st\<lparr>overwriteConfirmed := v\<rparr> else st)"

text \<open>
  The step bar: \<open>currentIndex\<close> of the step shown, and \<open>onChange\<close>, which only goes
  back (items after the current one are disabled, and \<open>next <= currentIndex\<close> is
  checked again).
\<close>

definition currentIndex :: "import_state \<Rightarrow> nat" where
  "currentIndex st =
     (if step st = Select \<or> step st = Manual then 0
      else if step st = Preview then 1
      else if step st = ModeStep then 2
      else if step st = Importing then 3
      else 4)"

definition steps_onChange :: "import_state \<Rightarrow> nat \<Rightarrow> import_state" where
  "steps_onChange st n =
     (if n = 0 then (if \<not> (step st = Select \<or> step st = Manual) then st\<lparr>step := Select\<rparr> else st)
      else if n \<le> currentIndex st then
        (if n = 1 then st\<lparr>step := Preview\<rparr>
         else if n = 2 then st\<lparr>step := ModeStep\<rparr>
         else if n = 3 then st\<lparr>step := Importing\<rparr>
         else if n = 4 then st\<lparr>step := Done\<rparr>
         else st)
      else st)"

text \<open>The state after the first render.\<close>

definition manualColumns :: "jsstring list" where
  "manualColumns =
     [js ''PersonID'', js ''Start date'', js ''End date'', js ''M-Risk Factors'',
      js ''Gender'', js ''Age'', js ''MNA'', js ''BMI'', js ''Weight'']"

definition emptyManualRow :: "jsstring \<rightharpoonup> jsstring" where
  "emptyManualRow = map_of (map (\<lambda>c. (c, [])) manualColumns)"

definition initial_import_state :: import_state where
  "initial_import_state =
     \<lparr>step = Select, token = [], filename = [], totalRows = 0, csvColumns = [],
      expectedColumns = [], missingCsv = [], missingDb = [], canImport = False,
      previewRows = [], csvMap = [], dbMap = [], mode = Append, loading = False,
      overwriteConfirmed = False, refreshModalOpen = False,
      manualRows = [emptyManualRow], manualErrors = [Map.empty], notices = []\<rparr>"

section \<open>ImportFiles.tsx: manual input\<close>

subsection \<open>String helpers\<close>

text \<open>\<open>s.split(sep)\<close> for a separator of one code unit: never an empty array.\<close>

fun split :: "nat \<Rightarrow> jsstring \<Rightarrow> jsstring list" where
  "split sep [] = [[]]"
| "split sep (c # cs) =
     (if c = sep then [] # split sep cs
      else (case split sep cs of [] \<Rightarrow> [[c]] | x # xs \<Rightarrow> (c # x) # xs))"

fun joinWith :: "nat \<Rightarrow> jsstring list \<Rightarrow> jsstring" where
  "joinWith sep [] = []"
| "joinWith sep [x] = x"
| "joinWith sep (x # y # ys) = x @ sep # joinWith sep (y # ys)"

definition isDigit :: "nat \<Rightarrow> bool" where
  "isDigit c \<longleftrightarrow> 48 \<le> c \<and> c \<le> 57"

text \<open>\<open>/^\d+$/\<close>, \<open>/^\d+(\.\d{1,2})?$/\<close> and \<open>/^\d{4}-\d{2}-\d{2}$/\<close>.\<close>

definition matchesInteger :: "jsstring \<Rightarrow> bool" where
  "matchesInteger v \<longleftrightarrow> v \<noteq> [] \<and> list_all isDigit v"

definition matchesDecimal2 :: "jsstring \<Rightarrow> bool" where
  "matchesDecimal2 v \<longleftrightarrow>
     takeWhile isDigit v \<noteq> [] \<and>
     (case dropWhile isDigit v of
        [] \<Rightarrow> True
      | c # ds \<Rightarrow> c = 46 \<and> (length ds = 1 \<or> length ds = 2) \<and> list_all isDigit ds)"

definition matchesDateShape :: "jsstring \<Rightarrow> bool" where
  "matchesDateShape v \<longleftrightarrow>
     length v = 10 \<and> list_all isDigit (take 4 v) \<and> v ! 4 = 45 \<and>
     list_all isDigit (take 2 (drop 5 v)) \<and> v ! 7 = 45 \<and> list_all isDigit (drop 8 v)"

text \<open>Decimal digits of a number, as a template literal and \<open>String(n)\<close> print an integer.\<close>

function showNat :: "nat \<Rightarrow> jsstring" where
  "showNat n = (if n < 10 then [48 + n] else showNat (n div 10) @ [48 + n mod 10])"
  by pat_completeness auto
termination
  by (relation "measure id") auto

declare showNat.simps [simp del]

definition showInt :: "int \<Rightarrow> jsstring" where
  "showInt i = (if i < 0 then 45 # showNat (nat (- i)) else showNat (nat i))"

text \<open>\<open>String(n).padStart(2, '0')\<close>\<close>

definition pad2 :: "int \<Rightarrow> jsstring" where
  "pad2 n = (let s = showInt n in if length s < 2 then 48 # s else s)"

subsection \<open>Dates\<close>

text \<open>
  A time value is a number of milliseconds since the epoch, or \<open>NaN\<close> (\<open>None\<close>). The
  environment of the browser: the offset of local time, \<open>LocalTZA(t, isUTC)\<close> of the
  language specification, and what \<open>Date.parse\<close> makes of a string that is not a valid
  date in the form \<open>YYYY-MM-DD\<close> (other forms of the date-time format, and the formats
  an engine accepts on top of it).
\<close>

record js_env =
  LocalTZA :: "int \<Rightarrow> bool \<Rightarrow> int"
  otherDateFormats :: "jsstring \<Rightarrow> int option"

definition msPerDay :: int where
  "msPerDay = 86400000"

definition Day :: "int \<Rightarrow> int" where
  "Day t = t div msPerDay"

definition TimeWithinDay :: "int \<Rightarrow> int" where
  "TimeWithinDay t = t mod msPerDay"

text \<open>
  The proleptic Gregorian calendar of the specification's YearFromTime, MonthFromTime and
  DateFromTime, in closed form: the year, the month (0 to 11) and the day of the month of
  a day number, and the day number of the first day of a month.
\<close>

definition civilFromDay :: "int \<Rightarrow> int \<times> int \<times> int" where
  "civilFromDay z0 =
     (let z = z0 + 719468;
          era = z div 146097;
          doe = z - era * 146097;
          yoe = (doe - doe div 1460 + doe div 36524 - doe div 146096) div 365;
          doy = doe - (365 * yoe + yoe div 4 - yoe div 100);
          mp = (5 * doy + 2) div 153;
          d = doy - (153 * mp + 2) div 5 + 1;
          m = (if mp < 10 then mp + 3 else mp - 9);
          y = yoe + era * 400 + (if m \<le> 2 then 1 else 0)
      in (y, m - 1, d))"

definition dayFromCivil :: "int \<Rightarrow> int \<Rightarrow> int \<Rightarrow> int" where
  "dayFromCivil y0 m0 d =
     (let m = m0 + 1;
          y = (if m \<le> 2 then y0 - 1 else y0);
          era = y div 400;
          yoe = y - era * 400;
          doy = (153 * (if m > 2 then m - 3 else m + 9) + 2) div 5 + d - 1;
          doe = yoe * 365 + yoe div 4 - yoe div 100 + doy
      in era * 146097 + doe - 719468)"

definition YearFromTime :: "int \<Rightarrow> int" where
  "YearFromTime t = fst (civilFromDay (Day t))"

definition MonthFromTime :: "int \<Rightarrow> int" where
  "MonthFromTime t = fst (snd (civilFromDay (Day t)))"

definition DateFromTime :: "int \<Rightarrow> int" where
  "DateFromTime t = snd (snd (civilFromDay (Day t)))"

definition MakeDay :: "int \<Rightarrow> int \<Rightarrow> int \<Rightarrow> int" where
  "MakeDay year month date = dayFromCivil (year + month div 12) (month mod 12) 1 + date - 1"

definition MakeDate :: "int \<Rightarrow> int \<Rightarrow> int" where
  "MakeDate day time = day * msPerDay + time"

definition TimeClip :: "int \<Rightarrow> int option" where
  "TimeClip t = (if \<bar>t\<bar> > 8640000000000000 then None else Some t)"

definition LocalTime :: "js_env \<Rightarrow> int \<Rightarrow> int" where
  "LocalTime env t = t + LocalTZA env t True"

definition UTC :: "js_env \<Rightarrow> int \<Rightarrow> int" where
  "UTC env t = t - LocalTZA env t False"

definition isLeapYear :: "int \<Rightarrow> bool" where
  "isLeapYear y \<longleftrightarrow> y mod 4 = 0 \<and> (y mod 100 \<noteq> 0 \<or> y mod 400 = 0)"

definition daysInMonth :: "int \<Rightarrow> int \<Rightarrow> int" where
  "daysInMonth y m =
     (if m = 2 then (if isLeapYear y then 29 else 28)
      else if m = 4 \<or> m = 6 \<or> m = 9 \<or> m = 11 then 30 else 31)"

definition digitsValue :: "jsstring \<Rightarrow> int" where
  "digitsValue ds = foldl (\<lambda>a c. 10 * a + (int c - 48)) 0 ds"

text \<open>A valid date in the date-only form \<open>YYYY-MM-DD\<close> is midnight UTC of that day.\<close>

definition parseDateOnly :: "jsstring \<Rightarrow> int option" where
  "parseDateOnly s =
     (if matchesDateShape s then
        (let y = digitsValue (take 4 s); m = digitsValue (take 2 (drop 5 s));
             d = digitsValue (drop 8 s)
         in if 1 \<le> m \<and> m \<le> 12 \<and> 1 \<le> d \<and> d \<le> daysInMonth y m
            then Some (MakeDate (MakeDay y (m - 1) d) 0) else None)
      else None)"

definition Date_parse :: "js_env \<Rightarrow> jsstring \<Rightarrow> int option" where
  "Date_parse env s =
     (case parseDateOnly s of
        Some t \<Rightarrow> Some t
      | None \<Rightarrow> (case otherDateFormats env s of None \<Rightarrow> None | Some t \<Rightarrow> TimeClip t))"

text \<open>\<open>d.getDate()\<close> and \<open>d.setDate(dt)\<close> on a valid date, in local time.\<close>

definition getDate :: "js_env \<Rightarrow> int \<Rightarrow> int" where
  "getDate env t = DateFromTime (LocalTime env t)"

definition setDate :: "js_env \<Rightarrow> int \<Rightarrow> int \<Rightarrow> int option" where
  "setDate env t dt =
     (let lt = LocalTime env t;
          newDate = MakeDate (MakeDay (YearFromTime lt) (MonthFromTime lt) dt) (TimeWithinDay lt)
      in TimeClip (UTC env newDate))"

text \<open>
  \<open>formatDate\<close>: the local year, month and day; on an invalid date each getter returns
  \<open>NaN\<close>.
\<close>

definition formatDate :: "js_env \<Rightarrow> int option \<Rightarrow> jsstring" where
  "formatDate env d =
     (case d of
        None \<Rightarrow> js ''NaN-NaN-NaN''
      | Some t \<Rightarrow>
          (let lt = LocalTime env t
           in showInt (YearFromTime lt) @ 45 # pad2 (MonthFromTime lt + 1) @ 45 # pad2 (DateFromTime lt)))"

definition addDays :: "js_env \<Rightarrow> jsstring \<Rightarrow> int \<Rightarrow> jsstring" where
  "addDays env base days =
     (case Date_parse env base of
        None \<Rightarrow> []
      | Some t \<Rightarrow> formatDate env (setDate env t (getDate env t + days)))"

subsection \<open>Cells and their validation\<close>

text \<open>\<open>r[k] ?? ''\<close> for a column name \<open>k\<close>.\<close>

definition cell :: "(jsstring \<rightharpoonup> jsstring) \<Rightarrow> jsstring \<Rightarrow> jsstring" where
  "cell r k = (case r k of None \<Rightarrow> [] | Some v \<Rightarrow> v)"

definition fullwidthComma :: nat where
  "fullwidthComma = 65292"

definition formatMRiskFactors :: "jsstring \<Rightarrow> jsstring list" where
  "formatMRiskFactors value =
     (if value = [] \<or> trim value = [] then []
      else filter (\<lambda>f. length f > 0) (map trim (split 44 value)))"

datatype risk_issue = ContainsChineseComma | ContainsDuplicates | ContainsEmpty

definition getMRiskFactorsStatus :: "jsstring \<Rightarrow> bool \<times> risk_issue list" where
  "getMRiskFactorsStatus value =
     (if value = [] \<or> trim value = [] then (False, [])
      else (let factors = formatMRiskFactors value;
                issues = (if fullwidthComma \<in> set value then [ContainsChineseComma] else [])
                       @ (if length factors \<noteq> length (jsSet factors) then [ContainsDuplicates] else [])
                       @ (if list_ex (\<lambda>f. length f = 0) factors then [ContainsEmpty] else [])
            in (length issues > 0, issues)))"

definition validateCell :: "(jsstring \<rightharpoonup> cell_error) \<Rightarrow> jsstring \<Rightarrow> jsstring \<Rightarrow> (jsstring \<rightharpoonup> cell_error)" where
  "validateCell eRow key val =
     (let v = trim val in
      if key = js ''Gender'' then
        eRow(key := if v = [] \<or> v = js ''male'' \<or> v = js ''female'' then None else Some GenderError)
      else if key = js ''Age'' then
        eRow(key := if v = [] \<or> matchesInteger v then None else Some AgeError)
      else if key = js ''MNA'' \<or> key = js ''BMI'' \<or> key = js ''Weight'' then
        eRow(key := if v = [] \<or> matchesDecimal2 v then None else Some DecimalError)
      else if key = js ''Start date'' then
        (eRow(key := if v = [] \<or> matchesDateShape v then None else Some DateFormatError))
          (js ''End date'' := None)
      else if key = js ''M-Risk Factors'' then
        (if v = [] then eRow(key := None)
         else if fullwidthComma \<in> set v then eRow(key \<mapsto> ChineseCommaError)
         else if length (filter (\<lambda>f. length f > 0) (map trim (split 44 v))) = 0
              then eRow(key \<mapsto> InvalidRiskFactors)
              else eRow(key := None))
      else eRow(key := None))"

definition updateRow :: "js_env \<Rightarrow> (jsstring \<rightharpoonup> jsstring) \<Rightarrow> jsstring \<Rightarrow> jsstring \<Rightarrow> (jsstring \<rightharpoonup> jsstring)" where
  "updateRow env r key val =
     (if key = js ''Start date''
      then (r(key \<mapsto> val))(js ''End date'' \<mapsto> (if val \<noteq> [] then addDays env val 6 else []))
      else r(key \<mapsto> val))"

text \<open>
  \<open>updateManualCell\<close>: the row and the error row at \<open>idx\<close> are replaced, the others
  are kept; an index past the end changes nothing.
\<close>

definition mapAt :: "nat \<Rightarrow> ('a \<Rightarrow> 'a) \<Rightarrow> 'a list \<Rightarrow> 'a list" where
  "mapAt idx f xs = map (\<lambda>(i, x). if i \<noteq> idx then x else f x) (zip [0..<length xs] xs)"

definition updateManualCell :: "js_env \<Rightarrow> import_state \<Rightarrow> nat \<Rightarrow> jsstring \<Rightarrow> jsstring \<Rightarrow> import_state" where
  "updateManualCell env st idx key val =
     st\<lparr>manualRows := mapAt idx (\<lambda>r. updateRow env r key val) (manualRows st),
        manualErrors := mapAt idx (\<lambda>eRow. validateCell eRow key val) (manualErrors st)\<rparr>"

subsection \<open>Submitting the manual rows as a CSV file\<close>

definition isBlank :: "(jsstring \<rightharpoonup> jsstring) \<Rightarrow> jsstring \<Rightarrow> bool" where
  "isBlank row col \<longleftrightarrow> cell row col = [] \<or> trim (cell row col) = []"

definition requiredFields :: "jsstring list" where
  "requiredFields =
     [js ''PersonID'', js ''Start date'', js ''Gender'', js ''Age'', js ''MNA'', js ''BMI'',
      js ''Weight'']"

text \<open>
  A cell of the generated CSV: trimmed, an empty risk-factor cell replaced by
  \<open>none\<close>, every double quote doubled, and the whole wrapped in double quotes when it
  contains a double quote, a comma or a line feed.
\<close>

definition doubleQuotes :: "jsstring \<Rightarrow> jsstring" where
  "doubleQuotes v = concat (map (\<lambda>c. if c = 34 then [34, 34] else [c]) v)"

definition cellValue :: "(jsstring \<rightharpoonup> jsstring) \<Rightarrow> jsstring \<Rightarrow> jsstring" where
  "cellValue r k =
     (let v = trim (cell r k) in if k = js ''M-Risk Factors'' \<and> v = [] then js ''none'' else v)"

definition quoteCell :: "jsstring \<Rightarrow> jsstring" where
  "quoteCell v0 =
     (let v = doubleQuotes v0
      in if list_ex (\<lambda>c. c = 34 \<or> c = 44 \<or> c = 10) v then 34 # v @ [34] else v)"

definition csvCell :: "(jsstring \<rightharpoonup> jsstring) \<Rightarrow> jsstring \<Rightarrow> jsstring" where
  "csvCell r k = quoteCell (cellValue r k)"

definition csvText :: "(jsstring \<rightharpoonup> jsstring) list \<Rightarrow> jsstring" where
  "csvText rows =
     joinWith 10 (joinWith 44 manualColumns
                  # map (\<lambda>r. joinWith 44 (map (csvCell r) manualColumns)) rows)"

text \<open>The size of the \<open>Blob\<close>: the length of the text in UTF-8.\<close>

fun utf8Length :: "jsstring \<Rightarrow> nat" where
  "utf8Length [] = 0"
| "utf8Length [c] = (if c < 128 then 1 else if c < 2048 then 2 else 3)"
| "utf8Length (c # d # cs) =
     (if c < 128 then 1 + utf8Length (d # cs)
      else if c < 2048 then 2 + utf8Length (d # cs)
      else if 55296 \<le> c \<and> c \<le> 56319 \<and> 56320 \<le> d \<and> d \<le> 57343 then 4 + utf8Length cs
      else 3 + utf8Length (d # cs))"

text \<open>
  \<open>submitManualAsCsv\<close>: the three checks, then the upload of the generated file. An
  error row has entries under column names only (\<open>validateCell\<close> sets an error for
  no other key), so \<open>Object.entries(rowErrors)\<close> is read at the column names.
\<close>

definition submitManualAsCsv :: "real option \<Rightarrow> import_state \<Rightarrow> preview_resp fetched \<Rightarrow> import_state \<times> request list" where
  "submitManualAsCsv maxEnv st res =
     (if list_ex (\<lambda>row. list_all (isBlank row) manualColumns) (manualRows st)
      then (notify st ManualInputRejected, [])
      else if list_ex (\<lambda>row. filter (isBlank row) requiredFields \<noteq> []) (manualRows st)
      then (notify st ManualInputRejected, [])
      else if list_ex (\<lambda>rowErrors. \<exists>field \<in> set manualColumns. rowErrors field \<noteq> None) (manualErrors st)
      then (notify st ManualInputRejected, [])
      else handleUpload maxEnv st
             \<lparr>file_size = utf8Length (csvText (manualRows st)), file_text = csvText (manualRows st)\<rparr> res)"

section \<open>MachineLearning.tsx: matching feature identifiers to symptoms\<close>

text \<open>
  \<open>s.replace(/P+/g, ' ')\<close>: every maximal run of code units in the class becomes one
  space. \<open>\s\<close> is the class that \<open>trim\<close> strips.
\<close>

function replaceRuns :: "(nat \<Rightarrow> bool) \<Rightarrow> jsstring \<Rightarrow> jsstring" where
  "replaceRuns P [] = []"
| "replaceRuns P (c # cs) =
     (if P c then 32 # replaceRuns P (dropWhile P cs) else c # replaceRuns P cs)"
  by pat_completeness auto
termination
  by (relation "measure (\<lambda>(P, s). length s)") (auto simp: length_dropWhile_le less_Suc_eq_le)

definition isLowerAlnum :: "nat \<Rightarrow> bool" where
  "isLowerAlnum c \<longleftrightarrow> (97 \<le> c \<and> c \<le> 122) \<or> (48 \<le> c \<and> c \<le> 57)"

definition normalize :: "case_table \<Rightarrow> jsstring \<Rightarrow> jsstring" where
  "normalize tbl s =
     trim (replaceRuns isWhiteSpace (replaceRuns (\<lambda>c. \<not> isLowerAlnum c) (toLowerCase tbl s)))"

text \<open>
  \<open>s.replace(/^rf_/i, '')\<close>: without the unicode flag, only \<open>r\<close>, \<open>R\<close>, \<open>f\<close> and
  \<open>F\<close> match the letters case-insensitively.
\<close>

definition stripRfPrefix :: "jsstring \<Rightarrow> jsstring" where
  "stripRfPrefix s =
     (case s of
        a # b # c # rest \<Rightarrow>
          if (a = 114 \<or> a = 82) \<and> (b = 102 \<or> b = 70) \<and> c = 95 then rest else s
      | _ \<Rightarrow> s)"

definition rfNormalize :: "case_table \<Rightarrow> jsstring \<Rightarrow> jsstring" where
  "rfNormalize tbl s = normalize tbl (map (\<lambda>c. if c = 95 then 32 else c) (stripRfPrefix s))"

record symptom_item =
  symptom :: jsstring
  category_id :: "int option"
  category :: "jsstring option"

record normed_symptom =
  norm :: jsstring
  raw :: jsstring
  ns_category_id :: "int option"
  ns_category :: "jsstring option"

record match_info =
  mi_symptom :: "jsstring option"
  mi_category_id :: "int option"
  mi_category :: "jsstring option"

definition normedSymptoms :: "case_table \<Rightarrow> symptom_item list \<Rightarrow> normed_symptom list" where
  "normedSymptoms tbl symptomItems =
     filter (\<lambda>x. norm x \<noteq> [])
       (map (\<lambda>it. \<lparr>norm = normalize tbl (symptom it), raw = symptom it,
                    ns_category_id = category_id it, ns_category = category it\<rparr>) symptomItems)"

text \<open>
  \<open>if (!byNorm[s.norm]) byNorm[s.norm] = {...}\<close>: an entry and an inherited member of
  \<open>Object.prototype\<close> are both truthy.
\<close>

fun buildByNorm :: "normed_symptom jsobject \<Rightarrow> normed_symptom list \<Rightarrow> normed_symptom jsobject" where
  "buildByNorm byNorm [] = byNorm"
| "buildByNorm byNorm (s # ss) =
     buildByNorm (case getProp byNorm (norm s) of
                    Undefined \<Rightarrow> setProp byNorm (norm s) s
                  | Own e \<Rightarrow> byNorm
                  | Inherited \<Rightarrow> byNorm) ss"

text \<open>
  The value stored under a feature identifier. An inherited member of
  \<open>Object.prototype\<close> has no \<open>raw\<close>, \<open>category_id\<close> or \<open>category\<close>.
\<close>

definition matchFeature :: "case_table \<Rightarrow> normed_symptom jsobject \<Rightarrow> jsstring \<Rightarrow> match_info" where
  "matchFeature tbl byNorm rf =
     (case getProp byNorm (rfNormalize tbl rf) of
        Own e \<Rightarrow> \<lparr>mi_symptom = Some (raw e), mi_category_id = ns_category_id e,
                   mi_category = ns_category e\<rparr>
      | Inherited \<Rightarrow> \<lparr>mi_symptom = None, mi_category_id = None, mi_category = None\<rparr>
      | Undefined \<Rightarrow> \<lparr>mi_symptom = None, mi_category_id = None, mi_category = None\<rparr>)"

text \<open>
  \<open>rfMatchMap\<close>, read at the feature identifiers it was built from. (A write of an
  object under \<open>__proto__\<close> replaces the prototype, and a read of \<open>__proto__\<close>
  returns it, so for these reads it behaves as an entry.)
\<close>

fun fillResult :: "case_table \<Rightarrow> normed_symptom jsobject \<Rightarrow> (jsstring \<rightharpoonup> match_info) \<Rightarrow> jsstring list \<Rightarrow> (jsstring \<rightharpoonup> match_info)" where
  "fillResult tbl byNorm res [] = res"
| "fillResult tbl byNorm res (rf # rfs) =
     fillResult tbl byNorm (res(rf \<mapsto> matchFeature tbl byNorm rf)) rfs"

definition rfMatchMap :: "case_table \<Rightarrow> jsstring list \<Rightarrow> symptom_item list \<Rightarrow> (jsstring \<rightharpoonup> match_info)" where
  "rfMatchMap tbl rfColumns symptomItems =
     fillResult tbl (buildByNorm Map.empty (normedSymptoms tbl symptomItems)) Map.empty rfColumns"

definition isMatched :: "(jsstring \<rightharpoonup> match_info) \<Rightarrow> jsstring \<Rightarrow> bool" where
  "isMatched m k \<longleftrightarrow>
     (case m k of
        None \<Rightarrow> False
      | Some mi \<Rightarrow> (case mi_symptom mi of None \<Rightarrow> False | Some s \<Rightarrow> s \<noteq> []))"


definition unmatchedRfKeys :: "case_table \<Rightarrow> jsstring list \<Rightarrow> symptom_item list \<Rightarrow> jsstring list" where
  "unmatchedRfKeys tbl rfColumns symptomItems =
     filter (\<lambda>k. \<not> isMatched (rfMatchMap tbl rfColumns symptomItems) k) rfColumns"

subsection \<open>The normalization as the specification words it\<close>




subsection \<open>Notions for the proofs about the normalization\<close>


section \<open>The server's reading of a delimited file\<close>

datatype parse_error = ParseFailure

datatype csv_state = FieldStart | InField | InQuotes | AfterQuote

text \<open>
  Modelled from the spec: the server's parser of an uploaded file is not part of the
  sources. The specification says that it reads delimited text, tolerates a byte-order
  mark, takes the first row as the header and turns every other row into an ordered
  mapping from column to raw string. The model is the usual reading of
  comma-separated text: fields are separated by commas and records by line feeds; a field
  that starts with a double quote runs to the closing double quote, inside which a
  doubled double quote stands for one and commas and line feeds are data. Content that
  ends inside a quoted field, or goes on after a closing quote, is a parse failure. A
  line feed at the very end does not start another record.
\<close>

fun parseCsvFrom :: "csv_state \<Rightarrow> jsstring \<Rightarrow> jsstring list \<Rightarrow> jsstring list list \<Rightarrow> jsstring \<Rightarrow> parse_error + jsstring list list" where
  "parseCsvFrom st f r rs [] =
     (case st of
        InQuotes \<Rightarrow> Inl ParseFailure
      | FieldStart \<Rightarrow> if r = [] then Inr (rev rs) else Inr (rev (rev (rev f # r) # rs))
      | InField \<Rightarrow> Inr (rev (rev (rev f # r) # rs))
      | AfterQuote \<Rightarrow> Inr (rev (rev (rev f # r) # rs)))"
| "parseCsvFrom st f r rs (c # cs) =
     (case st of
        InQuotes \<Rightarrow>
          if c = 34 then parseCsvFrom AfterQuote f r rs cs
          else parseCsvFrom InQuotes (c # f) r rs cs
      | AfterQuote \<Rightarrow>
          if c = 34 then parseCsvFrom InQuotes (c # f) r rs cs
          else if c = 44 then parseCsvFrom FieldStart [] (rev f # r) rs cs
          else if c = 10 then parseCsvFrom FieldStart [] [] (rev (rev f # r) # rs) cs
          else Inl ParseFailure
      | FieldStart \<Rightarrow>
          if c = 34 then parseCsvFrom InQuotes [] r rs cs
          else if c = 44 then parseCsvFrom FieldStart [] (rev f # r) rs cs
          else if c = 10 then parseCsvFrom FieldStart [] [] (rev (rev f # r) # rs) cs
          else parseCsvFrom InField (c # f) r rs cs
      | InField \<Rightarrow>
          if c = 44 then parseCsvFrom FieldStart [] (rev f # r) rs cs
          else if c = 10 then parseCsvFrom FieldStart [] [] (rev (rev f # r) # rs) cs
          else parseCsvFrom InField (c # f) r rs cs)"

text \<open>Modelled from the spec: a byte-order mark at the start of the text is dropped.\<close>

definition stripBom :: "jsstring \<Rightarrow> jsstring" where
  "stripBom text = (case text of [] \<Rightarrow> [] | c # cs \<Rightarrow> if c = 65279 then cs else text)"

text \<open>Modelled from the spec: the records of an uploaded text.\<close>

definition parseCsv :: "jsstring \<Rightarrow> parse_error + jsstring list list" where
  "parseCsv text = parseCsvFrom FieldStart [] [] [] (stripBom text)"

text \<open>
  Modelled from the spec: the first record is the header, and every other record is
  paired with it, column by column.
\<close>

record parsed_dataset =
  pd_columns :: "jsstring list"
  pd_rows :: "(jsstring \<times> jsstring) list list"

definition parseDataset :: "jsstring \<Rightarrow> parse_error + parsed_dataset" where
  "parseDataset text =
     (case parseCsv text of
        Inl e \<Rightarrow> Inl e
      | Inr [] \<Rightarrow> Inl ParseFailure
      | Inr (header # rows) \<Rightarrow> Inr \<lparr>pd_columns = header, pd_rows = map (zip header) rows\<rparr>)"

subsection \<open>Notions for the proofs about the parser\<close>

text \<open>
  The code units that make \<open>quoteCell\<close> wrap a cell; where a field may end (at the end
  of the text, before a comma or a line feed) and where a record may end; and how the
  parser goes on once a field or a record is complete.
\<close>

definition special :: "nat \<Rightarrow> bool" where
  "special c \<longleftrightarrow> c = 34 \<or> c = 44 \<or> c = 10"

definition boundary :: "jsstring \<Rightarrow> bool" where
  "boundary rest \<longleftrightarrow> (case rest of [] \<Rightarrow> True | c # cs \<Rightarrow> c = 44 \<or> c = 10)"

definition lineEnd :: "jsstring \<Rightarrow> bool" where
  "lineEnd rest \<longleftrightarrow> (case rest of [] \<Rightarrow> True | c # cs \<Rightarrow> c = 10)"

definition fieldDone :: "jsstring \<Rightarrow> jsstring list \<Rightarrow> jsstring list list \<Rightarrow> jsstring \<Rightarrow> parse_error + jsstring list list" where
  "fieldDone v r rs rest =
     (case rest of
        [] \<Rightarrow> Inr (rev (rev (v # r) # rs))
      | c # cs \<Rightarrow> if c = 44 then parseCsvFrom FieldStart [] (v # r) rs cs
                 else parseCsvFrom FieldStart [] [] (rev (v # r) # rs) cs)"

definition rowDone :: "jsstring list \<Rightarrow> jsstring list list \<Rightarrow> jsstring \<Rightarrow> parse_error + jsstring list list" where
  "rowDone row rs rest =
     (case rest of
        [] \<Rightarrow> Inr (rev (row # rs))
      | c # cs \<Rightarrow> parseCsvFrom FieldStart [] [] (row # rs) cs)"

section \<open>Strings and lists: properties\<close>

lemma trim_keeps:
  assumes "c \<in> set s" and "\<not> isWhiteSpace c"
  shows "c \<in> set (trim s)"
proof -
  have keep: "c \<in> set (dropWhile isWhiteSpace xs)" if "c \<in> set xs" for xs
    using that assms(2) by (induction xs) auto
  show ?thesis
    unfolding trim_def using keep[of "rev (dropWhile isWhiteSpace s)"] keep[OF assms(1)] by simp
qed

lemma trim_subset: "set (trim s) \<subseteq> set s"
proof -
  have "set (dropWhile isWhiteSpace xs) \<subseteq> set xs" for xs :: "nat list"
    by (simp add: set_dropWhileD subsetI)
  then show ?thesis
    unfolding trim_def by (metis set_rev subset_trans)
qed

lemma trim_ends:
  assumes "trim s \<noteq> []"
  shows "\<not> isWhiteSpace (hd (trim s))" and "\<not> isWhiteSpace (last (trim s))"
proof -
  let ?a = "dropWhile isWhiteSpace s"
  let ?b = "dropWhile isWhiteSpace (rev ?a)"
  from assms have b: "?b \<noteq> []" by (simp add: trim_def)
  have a: "?a \<noteq> []"
  proof
    assume "?a = []"
    then have "?b = []" by (simp only: rev.simps dropWhile.simps)
    with b show False by contradiction
  qed
  have "\<not> isWhiteSpace (hd ?b)" using b by (rule hd_dropWhile)
  then show "\<not> isWhiteSpace (last (trim s))"
    using b by (simp add: trim_def last_rev)
  have "\<not> isWhiteSpace (hd ?a)" using a by (rule hd_dropWhile)
  moreover have "\<exists>ws. rev ?a = ws @ ?b"
    by (metis takeWhile_dropWhile_id)
  then obtain ws where "rev ?a = ws @ ?b" by blast
  then have "?a = rev ?b @ rev ws" by (metis rev_append rev_rev_ident)
  then have "hd ?a = hd (rev ?b)" using b by (metis hd_append2 rev_is_Nil_conv)
  ultimately show "\<not> isWhiteSpace (hd (trim s))" by (simp add: trim_def)
qed

lemma trim_fixed:
  assumes "s \<noteq> []" and "\<not> isWhiteSpace (hd s)" and "\<not> isWhiteSpace (last s)"
  shows "trim s = s"
proof -
  have 1: "dropWhile isWhiteSpace s = s"
    using assms(1,2) by (cases s) auto
  have 2: "dropWhile isWhiteSpace (rev s) = rev s"
    using assms(1,3) by (cases "rev s") (auto simp: last_rev[symmetric] simp del: last_rev)
  show ?thesis by (simp add: trim_def 1 2)
qed

lemma trim_idem: "trim (trim s) = trim s"
proof (cases "trim s = []")
  case True
  have "trim [] = []" by (simp add: trim_def)
  with True show ?thesis by simp
next
  case False
  then show ?thesis using trim_ends[OF False] by (intro trim_fixed)
qed

lemma split_no_sep: "sep \<notin> set v \<Longrightarrow> split sep v = [v]"
  by (induction v) auto

lemma split_tokens_no_sep: "t \<in> set (split sep v) \<Longrightarrow> sep \<notin> set t"
proof (induction v arbitrary: t)
  case Nil
  then show ?case by simp
next
  case (Cons c cs)
  then show ?case
    by (cases "split sep cs") (auto split: if_splits)
qed

lemma split_not_Nil: "split sep v \<noteq> []"
  by (induction v) (auto split: list.splits)

lemma join_split: "joinWith sep (split sep v) = v"
proof (induction v)
  case Nil
  then show ?case by simp
next
  case (Cons c cs)
  show ?case
  proof (cases "c = sep")
    case True
    then show ?thesis using Cons split_not_Nil[of sep cs]
      by (cases "split sep cs") auto
  next
    case False
    obtain x xs where sp: "split sep cs = x # xs"
      using split_not_Nil[of sep cs] by (cases "split sep cs") auto
    with Cons have "joinWith sep (x # xs) = cs" by simp
    then have "joinWith sep ((c # x) # xs) = c # cs"
      by (cases xs) auto
    with False sp show ?thesis by simp
  qed
qed

lemma mapAt_nth: "idx < length xs \<Longrightarrow> mapAt idx f xs ! idx = f (xs ! idx)"
  by (simp add: mapAt_def)

lemma fullwidthComma_not_space: "\<not> isWhiteSpace fullwidthComma"
  by (simp add: isWhiteSpace_def fullwidthComma_def)

lemma split_append_sep: "sep \<notin> set p \<Longrightarrow> split sep (p @ sep # rest) = p # split sep rest"
  by (induction p) auto

lemma split_join:
  "ps \<noteq> [] \<Longrightarrow> \<forall>p \<in> set ps. sep \<notin> set p \<Longrightarrow> split sep (joinWith sep ps) = ps"
proof (induction sep ps rule: joinWith.induct)
  case (1 sep)
  then show ?case by simp
next
  case (2 sep x)
  then show ?case by (simp add: split_no_sep)
next
  case (3 sep x y ys)
  then show ?case by (simp add: split_append_sep)
qed

section \<open>The reconciliation worklist: properties\<close>

subsection \<open>The merge\<close>

lemma mapHas_iff: "mapHas m k \<longleftrightarrow> k \<in> fst ` set m"
  by (simp add: mapHas_def map_of_eq_None_iff)

lemma mergeInto_keys:
  "fst ` set (mergeInto tbl m ss) = fst ` set m \<union> toLowerCase tbl ` set ss"
proof (induction ss arbitrary: m)
  case Nil
  then show ?case by simp
next
  case (Cons s ss)
  show ?case
    unfolding mergeInto.simps Let_def mapHas_iff Cons.IH by auto
qed

lemma mergeInto_distinct:
  "distinct (map fst m) \<Longrightarrow> distinct (map fst (mergeInto tbl m ss))"
proof (induction ss arbitrary: m)
  case Nil
  then show ?case by simp
next
  case (Cons s ss)
  show ?case
    unfolding mergeInto.simps Let_def mapHas_iff
    by (rule Cons.IH) (use Cons.prems in auto)
qed

lemma mergeInto_entries:
  "(k, s) \<in> set (mergeInto tbl m ss) \<Longrightarrow>
     (k, s) \<in> set m \<or> (s \<in> set ss \<and> k = toLowerCase tbl s \<and> k \<notin> fst ` set m)"
proof (induction ss arbitrary: m)
  case Nil
  then show ?case by simp
next
  case (Cons a ss)
  show ?case
  proof (cases "toLowerCase tbl a \<in> fst ` set m")
    case True
    with Cons.prems have "(k, s) \<in> set (mergeInto tbl m ss)"
      by (simp add: Let_def mapHas_iff)
    from Cons.IH[OF this] show ?thesis by auto
  next
    case False
    with Cons.prems have "(k, s) \<in> set (mergeInto tbl (m @ [(toLowerCase tbl a, a)]) ss)"
      by (simp add: Let_def mapHas_iff)
    from Cons.IH[OF this] False show ?thesis by auto
  qed
qed

lemma merged_entries_keyed:
  "\<forall>(k, s) \<in> set (mergeInto tbl (mergeInto tbl [] u) n). k = toLowerCase tbl s"
  using mergeInto_entries[where tbl = tbl and m = "mergeInto tbl [] u" and ss = n]
    mergeInto_entries[where tbl = tbl and m = "[]" and ss = u]
  by fastforce

lemma mergedList_distinct_keys: "distinct (map (toLowerCase tbl) (mergedList tbl u n))"
proof -
  let ?m = "mergeInto tbl (mergeInto tbl [] u) n"
  have d: "distinct (map fst ?m)"
    by (intro mergeInto_distinct) simp
  have "map fst ?m = map (toLowerCase tbl) (map snd ?m)"
    using merged_entries_keyed[of tbl u n] by (auto simp: map_eq_conv)
  with d show ?thesis by (simp add: mergedList_def)
qed

lemma mergedList_prefers_store:
  assumes "s \<in> set (mergedList tbl u n)" and "toLowerCase tbl s \<in> toLowerCase tbl ` set u"
  shows "s \<in> set u"
proof -
  from assms(1) obtain k where ks: "(k, s) \<in> set (mergeInto tbl (mergeInto tbl [] u) n)"
    by (auto simp: mergedList_def)
  from mergeInto_entries[OF ks] show ?thesis
  proof
    assume "(k, s) \<in> set (mergeInto tbl [] u)"
    from mergeInto_entries[OF this] show ?thesis by simp
  next
    assume a: "s \<in> set n \<and> k = toLowerCase tbl s \<and> k \<notin> fst ` set (mergeInto tbl [] u)"
    then have "toLowerCase tbl s \<notin> toLowerCase tbl ` set u"
      using mergeInto_keys[of tbl "[]" u] by auto
    with assms(2) show ?thesis by simp
  qed
qed

lemma mergedList_keys:
  "toLowerCase tbl ` set (mergedList tbl u n) = toLowerCase tbl ` (set u \<union> set n)"
proof -
  let ?m = "mergeInto tbl (mergeInto tbl [] u) n"
  have "fst ` set ?m = toLowerCase tbl ` snd ` set ?m"
    using merged_entries_keyed[of tbl u n] by (force simp: image_iff)
  then show ?thesis
    by (simp add: mergedList_def mergeInto_keys image_Un)
qed

lemma handleScan_worklist:
  "fetchScan post get = Some (data, unassignedList, missingNew) \<Longrightarrow>
   map_option missing_items (result (handleScan tbl st post get))
     = Some (mergedList tbl unassignedList missingNew)"
  by (simp add: handleScan_def Let_def)

lemma cleanList_set:
  "set (cleanList xs) = {trim v | v. Str v \<in> set xs \<and> trim v \<noteq> []}"
proof -
  have "(\<lambda>v. case v of Str s \<Rightarrow> trim s | NotStr \<Rightarrow> []) ` set xs - {[]}
      = {trim v | v. Str v \<in> set xs \<and> trim v \<noteq> []}"
    by (force split: jsval.splits)
  moreover have "set (cleanList xs)
      = (\<lambda>v. case v of Str s \<Rightarrow> trim s | NotStr \<Rightarrow> []) ` set xs - {[]}"
    by (auto simp: cleanList_def)
  ultimately show ?thesis by simp
qed

lemma cleanList_trimmed: "s \<in> set (cleanList xs) \<Longrightarrow> trim s = s \<and> s \<noteq> []"
  by (auto simp: cleanList_set trim_idem)

lemma mergedList_subset: "set (mergedList tbl u n) \<subseteq> set u \<union> set n"
proof
  fix s
  assume "s \<in> set (mergedList tbl u n)"
  then obtain k where ks: "(k, s) \<in> set (mergeInto tbl (mergeInto tbl [] u) n)"
    by (auto simp: mergedList_def)
  from mergeInto_entries[OF ks] show "s \<in> set u \<union> set n"
  proof
    assume "(k, s) \<in> set (mergeInto tbl [] u)"
    from mergeInto_entries[OF this] show ?thesis by simp
  next
    assume "s \<in> set n \<and> k = toLowerCase tbl s \<and> k \<notin> fst ` set (mergeInto tbl [] u)"
    then show ?thesis by simp
  qed
qed

lemma silentScan_worklist:
  assumes "fetchScan post get = Some (data, unassignedList, missingNew)"
    and "\<not> seen_refreshing cl"
  shows "map_option missing_items (result (silentScan tbl cl st post get now))
     = (if changed (curSetOf tbl cl)
             (jsSet (map (toLowerCase tbl) (mergedList tbl unassignedList missingNew)))
        then Some (mergedList tbl unassignedList missingNew)
        else map_option missing_items (result st))"
  using assms by (simp add: silentScan_def Let_def)

lemma fetchScan_Returns:
  "sd_ok data \<Longrightarrow> sy_ok resp \<Longrightarrow>
   fetchScan (Returns data) (Returns resp)
     = Some (data, cleanList (case sy_items resp of None \<Rightarrow> [] | Some xs \<Rightarrow> xs),
             cleanList (case sd_missing_items data of None \<Rightarrow> [] | Some xs \<Rightarrow> xs))"
  by (simp add: fetchScan_def)

text \<open>
  C5. When both requests of a scan succeed, \<open>handleScan\<close> stores as the worklist, and
  \<open>silentScan\<close> stores whenever its change test fires, a list \<open>W\<close> built from the
  strings \<open>S\<close> of the Taxonomy Store's unassigned symptoms and the strings \<open>R\<close> of the
  raw scan, such that: every entry of \<open>W\<close> is trimmed and not empty; no two entries of
  \<open>W\<close> have the same normalized key, the key of a string being its case-folded trimmed
  form; the keys of \<open>W\<close> are exactly the keys of the strings of \<open>S\<close> and \<open>R\<close> that
  are not blank; and an entry of \<open>W\<close> whose key is the key of some string of the Store
  is the trimmed form of a string of the Store.
\<close>

theorem worklist_dedup_prefers_store:
  fixes tbl :: case_table and data :: scan_data and resp :: symptoms_data
  defines "S \<equiv> (case sy_items resp of None \<Rightarrow> [] | Some xs \<Rightarrow> xs)"
    and "R \<equiv> (case sd_missing_items data of None \<Rightarrow> [] | Some xs \<Rightarrow> xs)"
  defines "W \<equiv> mergedList tbl (cleanList S) (cleanList R)"
  assumes ok: "sd_ok data" "sy_ok resp"
  shows "map_option missing_items (result (handleScan tbl st (Returns data) (Returns resp))) = Some W \<and>
         (\<not> seen_refreshing cl \<longrightarrow>
            map_option missing_items (result (silentScan tbl cl st (Returns data) (Returns resp) now))
              = (if changed (curSetOf tbl cl) (jsSet (map (toLowerCase tbl) W)) then Some W
                 else map_option missing_items (result st))) \<and>
         (\<forall>s \<in> set W. trim s = s \<and> s \<noteq> []) \<and>
         distinct (map (\<lambda>s. toLowerCase tbl (trim s)) W) \<and>
         (\<lambda>s. toLowerCase tbl (trim s)) ` set W
           = {toLowerCase tbl (trim v) | v. (Str v \<in> set S \<or> Str v \<in> set R) \<and> trim v \<noteq> []} \<and>
         (\<forall>s \<in> set W. \<forall>v. Str v \<in> set S \<and> trim v \<noteq> [] \<and>
              toLowerCase tbl (trim v) = toLowerCase tbl (trim s)
            \<longrightarrow> (\<exists>u. Str u \<in> set S \<and> s = trim u))"
proof (intro conjI)
  have f: "fetchScan (Returns data) (Returns resp) = Some (data, cleanList S, cleanList R)"
    using ok by (simp add: fetchScan_Returns S_def R_def)
  show "map_option missing_items (result (handleScan tbl st (Returns data) (Returns resp))) = Some W"
    unfolding W_def by (rule handleScan_worklist[OF f])
  show "\<not> seen_refreshing cl \<longrightarrow>
         map_option missing_items (result (silentScan tbl cl st (Returns data) (Returns resp) now))
           = (if changed (curSetOf tbl cl) (jsSet (map (toLowerCase tbl) W)) then Some W
              else map_option missing_items (result st))"
    unfolding W_def using silentScan_worklist[OF f] by blast
  have tr: "trim s = s \<and> s \<noteq> []" if "s \<in> set W" for s
  proof -
    from that have "s \<in> set (cleanList S) \<union> set (cleanList R)"
      unfolding W_def using mergedList_subset by blast
    then show ?thesis using cleanList_trimmed by blast
  qed
  then show "\<forall>s \<in> set W. trim s = s \<and> s \<noteq> []" by blast
  have m: "map (\<lambda>s. toLowerCase tbl (trim s)) W = map (toLowerCase tbl) W"
    using tr by (simp add: map_eq_conv)
  have d: "distinct (map (toLowerCase tbl) W)"
    unfolding W_def by (rule mergedList_distinct_keys)
  show "distinct (map (\<lambda>s. toLowerCase tbl (trim s)) W)"
    unfolding m by (rule d)
  have "(\<lambda>s. toLowerCase tbl (trim s)) ` set W = toLowerCase tbl ` set W"
    using tr by (auto simp: image_iff)
  also have "\<dots> = toLowerCase tbl ` (set (cleanList S) \<union> set (cleanList R))"
    unfolding W_def by (rule mergedList_keys)
  also have "\<dots> = {toLowerCase tbl (trim v) | v. (Str v \<in> set S \<or> Str v \<in> set R) \<and> trim v \<noteq> []}"
    unfolding cleanList_set by blast
  finally show "(\<lambda>s. toLowerCase tbl (trim s)) ` set W
           = {toLowerCase tbl (trim v) | v. (Str v \<in> set S \<or> Str v \<in> set R) \<and> trim v \<noteq> []}" .
  show "\<forall>s \<in> set W. \<forall>v. Str v \<in> set S \<and> trim v \<noteq> [] \<and>
             toLowerCase tbl (trim v) = toLowerCase tbl (trim s)
           \<longrightarrow> (\<exists>u. Str u \<in> set S \<and> s = trim u)"
  proof (intro ballI allI impI)
    fix s v
    assume s: "s \<in> set W"
      and v: "Str v \<in> set S \<and> trim v \<noteq> [] \<and> toLowerCase tbl (trim v) = toLowerCase tbl (trim s)"
    from v have "trim v \<in> set (cleanList S)" by (auto simp: cleanList_set)
    moreover from v tr[OF s] have "toLowerCase tbl s = toLowerCase tbl (trim v)" by simp
    ultimately have "toLowerCase tbl s \<in> toLowerCase tbl ` set (cleanList S)" by blast
    with s have "s \<in> set (cleanList S)"
      unfolding W_def by (rule mergedList_prefers_store)
    then show "\<exists>u. Str u \<in> set S \<and> s = trim u" by (auto simp: cleanList_set)
  qed
qed

theorem worklist_dedup_prefers_store_witness:
  "sd_ok \<lparr>sd_ok = True, sd_inserted = Some 0,
          sd_missing_items = Some [Str (js ''fatigue''), NotStr, Str (js '' infection ''),
                                   Str (js ''  ''), Str (js ''FATIGUE '')]\<rparr> \<and>
   sy_ok \<lparr>sy_ok = True, sy_items = Some [Str (js '' Fatigue '')]\<rparr> \<and>
   map_option missing_items
     (result (handleScan id initial_state
        (Returns \<lparr>sd_ok = True, sd_inserted = Some 0,
                  sd_missing_items = Some [Str (js ''fatigue''), NotStr, Str (js '' infection ''),
                                           Str (js ''  ''), Str (js ''FATIGUE '')]\<rparr>)
        (Returns \<lparr>sy_ok = True, sy_items = Some [Str (js '' Fatigue '')]\<rparr>)))
     = Some [js ''Fatigue'', js ''infection''] \<and>
   \<not> seen_refreshing (closure_of initial_state) \<and>
   map_option missing_items
     (result (silentScan id (closure_of initial_state) initial_state
        (Returns \<lparr>sd_ok = True, sd_inserted = Some 0,
                  sd_missing_items = Some [Str (js ''fatigue''), NotStr, Str (js '' infection ''),
                                           Str (js ''  ''), Str (js ''FATIGUE '')]\<rparr>)
        (Returns \<lparr>sy_ok = True, sy_items = Some [Str (js '' Fatigue '')]\<rparr>) 0))
     = Some [js ''Fatigue'', js ''infection'']"
  using worklist_dedup_prefers_store
    [where tbl = id and st = initial_state and cl = "closure_of initial_state" and now = 0
       and data = "\<lparr>sd_ok = True, sd_inserted = Some 0,
                     sd_missing_items = Some [Str (js ''fatigue''), NotStr, Str (js '' infection ''),
                                              Str (js ''  ''), Str (js ''FATIGUE '')]\<rparr>"
       and resp = "\<lparr>sy_ok = True, sy_items = Some [Str (js '' Fatigue '')]\<rparr>"]
  by (simp add: js_def trim_def isWhiteSpace_def toLowerCase_def lowerAscii_def mergedList_def
      mapHas_def Let_def cleanList_def closure_of_def initial_state_def curSetOf_def
      changed_def jsSet_def)
subsection \<open>The change test of the background scan\<close>

lemma jsSet_set [simp]: "set (jsSet xs) = set xs"
  by (simp add: jsSet_def)

lemma jsSet_distinct [simp]: "distinct (jsSet xs)"
  by (simp add: jsSet_def)

lemma changed_iff: "changed (jsSet xs) (jsSet ys) \<longleftrightarrow> set xs \<noteq> set ys"
proof -
  have len: "length (jsSet zs) = card (set zs)" for zs :: "jsstring list"
    using distinct_card[of "jsSet zs"] by simp
  show ?thesis
  proof (cases "card (set xs) = card (set ys)")
    case False
    then show ?thesis by (auto simp: changed_def len)
  next
    case True
    have "set ys \<subseteq> set xs \<Longrightarrow> set ys = set xs"
      using True by (intro card_subset_eq) auto
    with True show ?thesis
      by (auto simp: changed_def len list_ex_iff)
  qed
qed

lemma changed_curSetOf:
  "changed (curSetOf tbl cl) (jsSet ys) \<longleftrightarrow> set ys \<noteq> set (curSetOf tbl cl)"
proof -
  obtain xs where xs: "curSetOf tbl cl = jsSet xs"
    by (simp add: curSetOf_def)
  show ?thesis unfolding xs changed_iff by auto
qed

lemma silentScan_same_keys:
  assumes "\<not> seen_refreshing cl"
    and "fetchScan post get = Some (data, unassignedList, missingNew)"
    and "set (map (toLowerCase tbl) (mergedList tbl unassignedList missingNew)) = set (curSetOf tbl cl)"
  shows "silentScan tbl cl st post get now = st\<lparr>lastRefreshedAt := Some now, refreshing := False\<rparr>"
  using assms by (simp add: silentScan_def Let_def changed_curSetOf)

lemma silentScan_changed_iff:
  assumes "\<not> seen_refreshing cl"
    and "fetchScan post get = Some (data, unassignedList, missingNew)"
  shows "result (silentScan tbl cl st post get now) =
     (if set (map (toLowerCase tbl) (mergedList tbl unassignedList missingNew)) \<noteq> set (curSetOf tbl cl)
      then Some \<lparr>inserted = (case sd_inserted data of None \<Rightarrow> 0 | Some n \<Rightarrow> n),
                  missing_items = mergedList tbl unassignedList missingNew\<rparr>
      else result st)"
  using assms by (simp add: silentScan_def Let_def changed_curSetOf)

text \<open>
  C1. The change test itself is set inequality (\<open>silentScan_changed_iff\<close>), but it
  compares the new keys with the worklist that the running \<open>silentScan\<close> closure
  holds. The countdown interval keeps the closure of the render that registered it, so
  after mounting it holds \<open>result = null\<close>: the initial scan finds fatigue and
  infection, the first poll finds the same two, and the second poll finds the same two
  in the other order. The second poll is treated as changed and the worklist on screen is
  replaced and reordered, although its key set is the one of the poll before. (The
  Refresh button, which calls the current closure, leaves the worklist as it is.)
\<close>

theorem stale_poll_closure_reshuffles_worklist:
  "let scan1 = Returns \<lparr>sd_ok = True, sd_inserted = Some 0,
                   sd_missing_items = Some [Str (js ''fatigue''), Str (js ''infection'')]\<rparr>;
       scan2 = Returns \<lparr>sd_ok = True, sd_inserted = Some 0,
                   sd_missing_items = Some [Str (js ''infection''), Str (js ''fatigue'')]\<rparr>;
       store = Returns \<lparr>sy_ok = True, sy_items = Some []\<rparr>;
       c0 = scan_done tbl mount scan1 store;
       c1 = poll_tick tbl c0 scan1 store 30;
       c2 = poll_tick tbl c1 scan2 store 60
   in set (map (toLowerCase tbl) (mergedList tbl [] [js ''fatigue'', js ''infection'']))
        = set (map (toLowerCase tbl) (mergedList tbl [] [js ''infection'', js ''fatigue''])) \<and>
      map_option missing_items (result (live c1)) = Some [js ''fatigue'', js ''infection''] \<and>
      map_option missing_items (result (live c2)) = Some [js ''infection'', js ''fatigue''] \<and>
      map_option missing_items (result (live (refresh_click tbl c1 scan2 store 60)))
        = Some [js ''fatigue'', js ''infection'']"
  by (simp add: js_def trim_def isWhiteSpace_def toLowerCase_def lowerAscii_def jsSet_def
      handleScan_def silentScan_def fetchScan_def cleanList_def mergedList_def mapHas_def
      changed_def closure_of_def curSetOf_def Let_def initial_state_def countdown_effect_def
      mount_def scan_done_def poll_tick_def refresh_click_def insert_commute)

subsection \<open>Selections carried over a replaced worklist\<close>

lemma carrySelections_lookup:
  "carrySelections prev next ss k =
     (if k \<in> set ss \<and> k \<noteq> js ''__proto__''
      then Some (case getProp prev k of Undefined \<Rightarrow> Unassigned | Own v \<Rightarrow> v | Inherited \<Rightarrow> ProtoValue)
      else next k)"
  by (induction ss arbitrary: "next") (auto simp: setProp_def)

lemma carrySelections_preserves:
  assumes "s \<in> set merged" and "s \<noteq> js ''__proto__''" and "prev s = Some v"
  shows "carrySelections prev Map.empty merged s = Some v"
  using assms by (simp add: carrySelections_lookup getProp_def)

lemma carrySelections_drops:
  "s \<notin> set merged \<Longrightarrow> carrySelections prev Map.empty merged s = None"
  by (simp add: carrySelections_lookup)

lemma carrySelections_new:
  assumes "s \<in> set merged" and "s \<notin> set Object_prototype_keys" and "prev s = None"
  shows "carrySelections prev Map.empty merged s = Some Unassigned"
proof -
  have "js ''__proto__'' \<in> set Object_prototype_keys"
    by (simp add: Object_prototype_keys_def)
  with assms show ?thesis
    by (auto simp: carrySelections_lookup getProp_def)
qed

text \<open>
  C8. When a background scan replaces the worklist, selections of symptoms that stay are
  kept and those of symptoms that left are dropped (\<open>carrySelections_preserves\<close>,
  \<open>carrySelections_drops\<close>), and a new symptom starts unassigned unless its name is
  a member of \<open>Object.prototype\<close> (\<open>carrySelections_new\<close>). The worklist is
  fatigue; the next scan adds a symptom spelled constructor. \<open>prev[s] ?? ''\<close> reads the
  inherited \<open>Object.prototype.constructor\<close>, so the new symptom does not start with the
  empty selection, where \<open>handleScan\<close> on the same responses sets it to \<open>''\<close>.
\<close>

theorem silentScan_new_symptom_constructor:
  "let scan1 = Returns \<lparr>sd_ok = True, sd_inserted = Some 0,
                   sd_missing_items = Some [Str (js ''fatigue'')]\<rparr>;
       scan2 = Returns \<lparr>sd_ok = True, sd_inserted = Some 0,
                   sd_missing_items = Some [Str (js ''fatigue''), Str (js ''constructor'')]\<rparr>;
       store = Returns \<lparr>sy_ok = True, sy_items = Some []\<rparr>;
       st = handleScan tbl initial_state scan1 store
   in selections st (js ''constructor'') = None \<and>
      selections (silentScan tbl (closure_of st) st scan2 store 30) (js ''constructor'') = Some ProtoValue \<and>
      selections (handleScan tbl st scan2 store) (js ''constructor'') = Some Unassigned"
  by (simp add: js_def trim_def isWhiteSpace_def toLowerCase_def lowerAscii_def jsSet_def
      getProp_def setProp_def Object_prototype_keys_def handleScan_def silentScan_def
      fetchScan_def cleanList_def mergedList_def mapHas_def changed_def closure_of_def
      curSetOf_def Let_def initial_state_def)

section \<open>Upload, preview and commit: properties\<close>

text \<open>
  C4. A file whose size exceeds \<open>MAX_UPLOAD_MB * 1024 * 1024\<close> bytes is rejected by
  \<open>handleUpload\<close> with the file-too-large message before any request: nothing is sent
  to the server, and the state is otherwise as it was.
\<close>

theorem oversize_upload_rejected_before_request:
  "real (file_size f) > MAX_UPLOAD_MB env * 1024 * 1024 \<Longrightarrow>
   handleUpload env st f res
     = (st\<lparr>notices := notices st @ [FileTooLarge (MAX_UPLOAD_MB env)], loading := False\<rparr>, [])"
  by (simp add: handleUpload_def notify_def)

theorem oversize_upload_rejected_before_request_witness:
  "real (file_size \<lparr>file_size = 104857601, file_text = []\<rparr>) > MAX_UPLOAD_MB (Some 100) * 1024 * 1024 \<and>
   handleUpload (Some 100) initial_import_state \<lparr>file_size = 104857601, file_text = []\<rparr> (Fetched 200 None)
     = (initial_import_state\<lparr>notices := [FileTooLarge 100], loading := False\<rparr>, [])"
  using oversize_upload_rejected_before_request
    [of "Some 100" "\<lparr>file_size = 104857601, file_text = []\<rparr>" initial_import_state "Fetched 200 None"]
  by (simp add: MAX_UPLOAD_MB_def initial_import_state_def)

lemma no_commit_without_canImport:
  assumes "\<not> canImport st"
  shows "startImport st res = (st, [])" and "next_disabled st" and "click_next st = st"
    and "startImport_disabled st" and "click_startImport st res = (st, [])"
  using assms
  by (simp_all add: startImport_def next_disabled_def click_next_def startImport_disabled_def
      click_startImport_def)

lemma steps_onChange_back_only: "currentIndex (steps_onChange st n) \<le> currentIndex st"
  by (simp add: currentIndex_def steps_onChange_def)

text \<open>
  C3. After a preview whose \<open>can_import\<close> is false, the page is at the preview step
  with \<open>canImport\<close> false: \<open>startImport\<close> returns at once and sends no commit
  request, the Next button of the preview step and the Start import button are disabled,
  and the step bar only leads back.
\<close>

theorem commit_rejected_when_cannot_import:
  assumes "\<not> real (file_size f) > MAX_UPLOAD_MB env * 1024 * 1024"
    and "res_ok status" and "pr_ok d" and "\<not> pr_can_import d"
  shows "let st' = fst (handleUpload env st f (Fetched status (Some d)))
         in step st' = Preview \<and> token st' = pr_token d \<and> \<not> canImport st' \<and>
            startImport st' res = (st', []) \<and>
            next_disabled st' \<and> click_next st' = st' \<and>
            startImport_disabled st' \<and> click_startImport st' res = (st', []) \<and>
            (\<forall>n. step (steps_onChange st' n) = Preview \<or> step (steps_onChange st' n) = Select)"
proof -
  have "status \<noteq> 413" using assms(2) by (auto simp: res_ok_def)
  then show ?thesis
    using assms
    by (simp add: Let_def handleUpload_def startImport_def next_disabled_def click_next_def
        startImport_disabled_def click_startImport_def currentIndex_def steps_onChange_def)
qed

theorem commit_rejected_when_cannot_import_witness:
  "\<not> real (file_size \<lparr>file_size = 10, file_text = []\<rparr>) > MAX_UPLOAD_MB None * 1024 * 1024 \<and>
   res_ok 200 \<and>
   startImport
     (fst (handleUpload None initial_import_state \<lparr>file_size = 10, file_text = []\<rparr>
        (Fetched 200 (Some \<lparr>pr_ok = True, pr_token = js ''t1'', pr_filename = js ''a.csv'',
           pr_total_rows = 1, pr_csv_columns = [js ''PersonID''], pr_expected_columns = manualColumns,
           pr_missing_in_csv = [js ''Age''], pr_missing_in_db = [], pr_csv_to_expected = [],
           pr_expected_to_db = [], pr_can_import = False, pr_preview = []\<rparr>))))
     (Fetched 200 (Some \<lparr>cr_ok = True, cr_inserted = 1, cr_total_rows_in_file = 1\<rparr>))
   = (fst (handleUpload None initial_import_state \<lparr>file_size = 10, file_text = []\<rparr>
        (Fetched 200 (Some \<lparr>pr_ok = True, pr_token = js ''t1'', pr_filename = js ''a.csv'',
           pr_total_rows = 1, pr_csv_columns = [js ''PersonID''], pr_expected_columns = manualColumns,
           pr_missing_in_csv = [js ''Age''], pr_missing_in_db = [], pr_csv_to_expected = [],
           pr_expected_to_db = [], pr_can_import = False, pr_preview = []\<rparr>))), [])"
  using commit_rejected_when_cannot_import
    [where f = "\<lparr>file_size = 10, file_text = []\<rparr>" and env = None and status = 200
       and st = initial_import_state
       and res = "Fetched 200 (Some \<lparr>cr_ok = True, cr_inserted = 1, cr_total_rows_in_file = 1\<rparr>)"
       and d = "\<lparr>pr_ok = True, pr_token = js ''t1'', pr_filename = js ''a.csv'',
           pr_total_rows = 1, pr_csv_columns = [js ''PersonID''], pr_expected_columns = manualColumns,
           pr_missing_in_csv = [js ''Age''], pr_missing_in_db = [], pr_csv_to_expected = [],
           pr_expected_to_db = [], pr_can_import = False, pr_preview = []\<rparr>"]
  by (simp add: Let_def MAX_UPLOAD_MB_def res_ok_def)

text \<open>
  C2, as stated, fails: a commit in overwrite mode, started after the confirmation
  checkbox was ticked, sends a body with the keys \<open>token\<close> and \<open>mode\<close> and no
  \<open>confirmed\<close>.
\<close>

theorem overwrite_commit_body_counterexample:
  "CommitRequest [(''token'', js ''t1''), (''mode'', js ''overwrite'')]
     \<in> set (snd (click_startImport
         (check_overwriteConfirmed
           (setMode
             (click_next
               (fst (handleUpload None initial_import_state \<lparr>file_size = 10, file_text = []\<rparr>
                 (Fetched 200 (Some \<lparr>pr_ok = True, pr_token = js ''t1'', pr_filename = js ''a.csv'',
                    pr_total_rows = 1, pr_csv_columns = manualColumns, pr_expected_columns = manualColumns,
                    pr_missing_in_csv = [], pr_missing_in_db = [], pr_csv_to_expected = [],
                    pr_expected_to_db = [], pr_can_import = True, pr_preview = []\<rparr>)))))
             Overwrite)
           True)
         (Fetched 200 (Some \<lparr>cr_ok = True, cr_inserted = 1, cr_total_rows_in_file = 1\<rparr>)))) \<and>
   ''confirmed'' \<notin> fst ` set [(''token'', js ''t1''), (''mode'', js ''overwrite'')]"
  by (simp add: handleUpload_def handleCommit_def startImport_def commitBody_def modeString_def
      res_ok_def MAX_UPLOAD_MB_def notify_def next_disabled_def click_next_def
      startImport_disabled_def click_startImport_def setMode_def check_overwriteConfirmed_def
      initial_import_state_def js_def)

text \<open>
  C2, amended. The confirmation is checked before the request is sent and is not a part
  of it: a commit request that the Start import button sends in overwrite mode is sent
  only when the confirmation checkbox is ticked, and its body is the token and the mode.
\<close>

theorem overwrite_commit_gated_by_confirmation:
  assumes "CommitRequest body \<in> set (snd (click_startImport st res))" and "mode st = Overwrite"
  shows "overwriteConfirmed st \<and> body = [(''token'', token st), (''mode'', js ''overwrite'')]"
  using assms
  by (auto simp: handleCommit_def startImport_def commitBody_def modeString_def
      startImport_disabled_def click_startImport_def
      split: if_splits fetched.splits option.splits)

theorem overwrite_commit_gated_by_confirmation_witness:
  "CommitRequest [(''token'', js ''t1''), (''mode'', js ''overwrite'')]
     \<in> set (snd (click_startImport
          (initial_import_state\<lparr>step := ModeStep, token := js ''t1'', canImport := True,
             mode := Overwrite, overwriteConfirmed := True\<rparr>)
          (Fetched 200 (Some \<lparr>cr_ok = True, cr_inserted = 1, cr_total_rows_in_file = 1\<rparr>)))) \<and>
   mode (initial_import_state\<lparr>step := ModeStep, token := js ''t1'', canImport := True,
             mode := Overwrite, overwriteConfirmed := True\<rparr>) = Overwrite \<and>
   overwriteConfirmed (initial_import_state\<lparr>step := ModeStep, token := js ''t1'', canImport := True,
             mode := Overwrite, overwriteConfirmed := True\<rparr>)"
  using overwrite_commit_gated_by_confirmation
    [where body = "[(''token'', js ''t1''), (''mode'', js ''overwrite'')]"
       and res = "Fetched 200 (Some \<lparr>cr_ok = True, cr_inserted = 1, cr_total_rows_in_file = 1\<rparr>)"
       and st = "initial_import_state\<lparr>step := ModeStep, token := js ''t1'', canImport := True,
             mode := Overwrite, overwriteConfirmed := True\<rparr>"]
  by (simp add: handleCommit_def startImport_def commitBody_def modeString_def res_ok_def
      notify_def startImport_disabled_def click_startImport_def initial_import_state_def js_def)

section \<open>Manual input: properties\<close>

subsection \<open>Risk factors\<close>

lemma formatMRiskFactors_eq:
  "formatMRiskFactors val = filter (\<lambda>t. t \<noteq> []) (map trim (split 44 val))"
proof (cases "val = [] \<or> trim val = []")
  case False
  then show ?thesis by (simp add: formatMRiskFactors_def)
next
  case True
  have t0: "trim [] = []" by (simp add: trim_def)
  have "44 \<notin> set val"
  proof
    assume "44 \<in> set val"
    then have "44 \<in> set (trim val)" by (rule trim_keeps) (simp add: isWhiteSpace_def)
    with True t0 show False by auto
  qed
  then have "split 44 val = [val]" by (rule split_no_sep)
  with True t0 show ?thesis by (auto simp: formatMRiskFactors_def)
qed

lemma risk_error_blocks_submit:
  assumes "idx < length (manualErrors st)"
    and "(manualErrors st ! idx) (js ''M-Risk Factors'') \<noteq> None"
  shows "snd (submitManualAsCsv maxEnv st res) = []"
proof -
  have "js ''M-Risk Factors'' \<in> set manualColumns"
    by (simp add: manualColumns_def)
  with assms have "list_ex (\<lambda>rowErrors. \<exists>field \<in> set manualColumns. rowErrors field \<noteq> None)
      (manualErrors st)"
    unfolding list_ex_iff using nth_mem by blast
  then show ?thesis by (simp add: submitManualAsCsv_def)
qed

text \<open>
  C6. The tokens of a risk-factor value are the trimmed, non-empty pieces between its
  ASCII commas, in order: for every non-empty list of strings without an ASCII comma,
  whatever else they contain, the tokens of the strings joined by ASCII commas are the
  trimmed strings that are not empty; every value is such a join, of pieces that no
  ASCII comma is in; and a value without an ASCII comma that is not blank is one token.
  A value containing the full-width comma is reported: \<open>getMRiskFactorsStatus\<close> lists
  the issue, \<open>updateManualCell\<close> sets the error of the cell, and with that error the
  rows are not submitted.
\<close>

theorem risk_factors_split_on_ascii_comma_only:
  "(ps \<noteq> [] \<and> (\<forall>p \<in> set ps. 44 \<notin> set p) \<longrightarrow>
      formatMRiskFactors (joinWith 44 ps) = filter (\<lambda>t. t \<noteq> []) (map trim ps)) \<and>
   (\<exists>qs. qs \<noteq> [] \<and> (\<forall>q \<in> set qs. 44 \<notin> set q) \<and> val = joinWith 44 qs \<and>
      formatMRiskFactors val = filter (\<lambda>t. t \<noteq> []) (map trim qs)) \<and>
   (\<forall>t \<in> set (formatMRiskFactors val). t \<noteq> [] \<and> trim t = t \<and> 44 \<notin> set t) \<and>
   (44 \<notin> set w \<and> trim w \<noteq> [] \<longrightarrow> formatMRiskFactors w = [trim w]) \<and>
   (fullwidthComma \<in> set val \<longrightarrow>
      fst (getMRiskFactorsStatus val) \<and>
      ContainsChineseComma \<in> set (snd (getMRiskFactorsStatus val)) \<and>
      (idx < length (manualErrors st) \<longrightarrow>
         (manualErrors (updateManualCell env st idx (js ''M-Risk Factors'') val) ! idx)
            (js ''M-Risk Factors'') = Some ChineseCommaError \<and>
         snd (submitManualAsCsv maxEnv
                (updateManualCell env st idx (js ''M-Risk Factors'') val) res) = []))"
proof (intro conjI ballI impI)
  assume "ps \<noteq> [] \<and> (\<forall>p \<in> set ps. 44 \<notin> set p)"
  then show "formatMRiskFactors (joinWith 44 ps) = filter (\<lambda>t. t \<noteq> []) (map trim ps)"
    by (simp add: formatMRiskFactors_eq split_join)
next
  show "\<exists>qs. qs \<noteq> [] \<and> (\<forall>q \<in> set qs. 44 \<notin> set q) \<and> val = joinWith 44 qs \<and>
      formatMRiskFactors val = filter (\<lambda>t. t \<noteq> []) (map trim qs)"
    using split_not_Nil[of 44 val] split_tokens_no_sep[of _ 44 val] join_split[of 44 val]
      formatMRiskFactors_eq[of val]
    by (intro exI[of _ "split 44 val"]) auto
next
  fix t assume t: "t \<in> set (formatMRiskFactors val)"
  then obtain p where p: "p \<in> set (split 44 val)" "t = trim p" "t \<noteq> []"
    by (auto simp: formatMRiskFactors_eq)
  then show "t \<noteq> []" by simp
  show "trim t = t" using p by (simp add: trim_idem)
  show "44 \<notin> set t" using p split_tokens_no_sep[of p 44 "val"] trim_subset[of p] by auto
next
  assume "44 \<notin> set w \<and> trim w \<noteq> []"
  then show "formatMRiskFactors w = [trim w]"
    by (simp add: formatMRiskFactors_eq split_no_sep)
next
  assume fw: "fullwidthComma \<in> set val"
  then have tv: "fullwidthComma \<in> set (trim val)"
    by (rule trim_keeps) (rule fullwidthComma_not_space)
  then have ne: "trim val \<noteq> []" "val \<noteq> []" using fw by auto
  show "fst (getMRiskFactorsStatus val)"
    using fw ne by (simp add: getMRiskFactorsStatus_def Let_def)
  show "ContainsChineseComma \<in> set (snd (getMRiskFactorsStatus val))"
    using fw ne by (simp add: getMRiskFactorsStatus_def Let_def)
  assume idx: "idx < length (manualErrors st)"
  then show e: "(manualErrors (updateManualCell env st idx (js ''M-Risk Factors'') val) ! idx)
            (js ''M-Risk Factors'') = Some ChineseCommaError"
    using tv ne by (simp add: updateManualCell_def mapAt_nth validateCell_def Let_def js_def)
  have l: "idx < length (manualErrors (updateManualCell env st idx (js ''M-Risk Factors'') val))"
    using idx by (simp add: updateManualCell_def mapAt_def)
  have n: "(manualErrors (updateManualCell env st idx (js ''M-Risk Factors'') val) ! idx)
            (js ''M-Risk Factors'') \<noteq> None"
    unfolding e by simp
  show "snd (submitManualAsCsv maxEnv
                (updateManualCell env st idx (js ''M-Risk Factors'') val) res) = []"
    using l n by (rule risk_error_blocks_submit)
qed

theorem risk_factors_split_on_ascii_comma_only_witness:
  "[[97, 65292, 98], [32, 99, 32], [], [100]] \<noteq> [] \<and>
   44 \<notin> set [97, 65292, 98 :: nat] \<and> 44 \<notin> set [32, 99, 32 :: nat] \<and> 44 \<notin> set [100 :: nat] \<and>
   joinWith 44 [[97, 65292, 98], [32, 99, 32], [], [100]]
     = [97, 65292, 98, 44, 32, 99, 32, 44, 44, 100] \<and>
   formatMRiskFactors [97, 65292, 98, 44, 32, 99, 32, 44, 44, 100]
     = [[97, 65292, 98], [99], [100]] \<and>
   trim [97, 65292, 98] \<noteq> [] \<and>
   formatMRiskFactors [97, 65292, 98] = [[97, 65292, 98]] \<and>
   fullwidthComma \<in> set [97, 65292, 98, 44, 32, 99, 32, 44, 44, 100] \<and>
   0 < length (manualErrors initial_import_state) \<and>
   fst (getMRiskFactorsStatus [97, 65292, 98, 44, 32, 99, 32, 44, 44, 100]) \<and>
   (manualErrors (updateManualCell \<lparr>LocalTZA = (\<lambda>t isUTC. 0), otherDateFormats = (\<lambda>s. None)\<rparr>
        initial_import_state 0 (js ''M-Risk Factors'')
        [97, 65292, 98, 44, 32, 99, 32, 44, 44, 100]) ! 0)
     (js ''M-Risk Factors'') = Some ChineseCommaError \<and>
   snd (submitManualAsCsv None
          (updateManualCell \<lparr>LocalTZA = (\<lambda>t isUTC. 0), otherDateFormats = (\<lambda>s. None)\<rparr>
             initial_import_state 0 (js ''M-Risk Factors'')
             [97, 65292, 98, 44, 32, 99, 32, 44, 44, 100]) FetchFails) = []"
  using risk_factors_split_on_ascii_comma_only
    [where ps = "[[97, 65292, 98], [32, 99, 32], [], [100]]"
       and val = "[97, 65292, 98, 44, 32, 99, 32, 44, 44, 100]"
       and w = "[97, 65292, 98]"
       and idx = 0 and st = initial_import_state and maxEnv = None and res = FetchFails
       and env = "\<lparr>LocalTZA = (\<lambda>t isUTC. 0), otherDateFormats = (\<lambda>s. None)\<rparr>"]
  by (simp add: trim_def isWhiteSpace_def fullwidthComma_def initial_import_state_def)

subsection \<open>The end date\<close>


lemma end_date_of_empty_start:
  "cell (updateRow env r (js ''Start date'') []) (js ''End date'') = []"
  by (simp add: updateRow_def cell_def)

lemma end_date_of_unparseable_start:
  "Date_parse env v = None \<Longrightarrow> cell (updateRow env r (js ''Start date'') v) (js ''End date'') = []"
  by (simp add: updateRow_def cell_def addDays_def)

lemma end_date_only_from_start_date:
  "key \<noteq> js ''Start date'' \<Longrightarrow> key \<noteq> js ''End date'' \<Longrightarrow>
   cell (updateRow env r key v) (js ''End date'') = cell r (js ''End date'')"
  by (simp add: updateRow_def cell_def)

lemma addDays_west:
  "addDays \<lparr>LocalTZA = (\<lambda>t isUTC. - 18000000), otherDateFormats = (\<lambda>s. None)\<rparr> (js ''2024-01-15'') 6
     = js ''2024-01-20''"
  by code_simp

lemma addDays_east:
  "addDays \<lparr>LocalTZA = (\<lambda>t isUTC. 36000000), otherDateFormats = (\<lambda>s. None)\<rparr> (js ''2024-01-15'') 6
     = js ''2024-01-21''"
  by code_simp

text \<open>
  C10. An empty or unparseable start date gives an empty end date
  (\<open>end_date_of_empty_start\<close>, \<open>end_date_of_unparseable_start\<close>) and no other cell
  changes the end date (\<open>end_date_only_from_start_date\<close>). But \<open>Date.parse\<close> reads
  \<open>YYYY-MM-DD\<close> as midnight UTC, and \<open>getDate\<close>, \<open>setDate\<close> and \<open>formatDate\<close>
  work in local time: in a browser five hours west of Greenwich the start date
  2024-01-15 gives the end date 2024-01-20, five days later, where ten hours east of
  Greenwich it gives 2024-01-21.
\<close>

theorem end_date_west_of_greenwich:
  "map (\<lambda>r. cell r (js ''End date''))
     (manualRows (updateManualCell
        \<lparr>LocalTZA = (\<lambda>t isUTC. - 18000000), otherDateFormats = (\<lambda>s. None)\<rparr>
        initial_import_state 0 (js ''Start date'') (js ''2024-01-15'')))
   = [js ''2024-01-20''] \<and>
   map (\<lambda>r. cell r (js ''End date''))
     (manualRows (updateManualCell
        \<lparr>LocalTZA = (\<lambda>t isUTC. 36000000), otherDateFormats = (\<lambda>s. None)\<rparr>
        initial_import_state 0 (js ''Start date'') (js ''2024-01-15'')))
   = [js ''2024-01-21'']"
  by (simp add: updateManualCell_def updateRow_def mapAt_def cell_def manualColumns_def
      emptyManualRow_def initial_import_state_def addDays_west addDays_east)
     (simp add: js_def)

section \<open>Matching feature identifiers: properties\<close>

subsection \<open>The normalization\<close>

























subsection \<open>The reverse index\<close>
























section \<open>The generated CSV text: properties\<close>

lemma doubleQuotes_plain: "\<not> list_ex special v \<Longrightarrow> doubleQuotes v = v"
  by (induction v) (auto simp: doubleQuotes_def special_def)

lemma doubleQuotes_special: "list_ex special (doubleQuotes v) = list_ex special v"
  by (induction v) (auto simp: doubleQuotes_def special_def)

lemma quoteCell_eq:
  "quoteCell v = (if list_ex special v then 34 # doubleQuotes v @ [34] else v)"
proof -
  have "list_ex (\<lambda>c. c = 34 \<or> c = 44 \<or> c = 10) w = list_ex special w" for w
    by (simp add: special_def[abs_def])
  then show ?thesis
    by (simp add: quoteCell_def Let_def doubleQuotes_special doubleQuotes_plain)
qed

lemma plain_in_field:
  "\<not> list_ex special v \<Longrightarrow>
   parseCsvFrom InField f r rs (v @ rest) = parseCsvFrom InField (rev v @ f) r rs rest"
  by (induction v arbitrary: f) (auto simp: special_def)

lemma in_field_done:
  "boundary rest \<Longrightarrow> parseCsvFrom InField f r rs rest = fieldDone (rev f) r rs rest"
  by (cases rest) (auto simp: boundary_def fieldDone_def)

lemma after_quote_done:
  "boundary rest \<Longrightarrow> parseCsvFrom AfterQuote f r rs rest = fieldDone (rev f) r rs rest"
  by (cases rest) (auto simp: boundary_def fieldDone_def)

lemma field_start_empty:
  "boundary rest \<Longrightarrow> r \<noteq> [] \<or> rest \<noteq> [] \<Longrightarrow>
   parseCsvFrom FieldStart [] r rs rest = fieldDone [] r rs rest"
  by (cases rest) (auto simp: boundary_def fieldDone_def)

lemma quoted_body:
  "parseCsvFrom InQuotes f r rs (doubleQuotes v @ 34 # rest)
     = parseCsvFrom AfterQuote (rev v @ f) r rs rest"
  by (induction v arbitrary: f) (auto simp: doubleQuotes_def)

lemma field_roundtrip:
  assumes "boundary rest" and "v \<noteq> [] \<or> r \<noteq> [] \<or> rest \<noteq> []"
  shows "parseCsvFrom FieldStart [] r rs (quoteCell v @ rest) = fieldDone v r rs rest"
proof (cases "list_ex special v")
  case True
  then show ?thesis
    using assms(1) by (simp add: quoteCell_eq quoted_body after_quote_done)
next
  case False
  show ?thesis
  proof (cases v)
    case Nil
    with False assms show ?thesis
      by (simp add: quoteCell_eq field_start_empty)
  next
    case (Cons c v')
    with False have c: "\<not> special c" and v': "\<not> list_ex special v'"
      by auto
    then have "parseCsvFrom FieldStart [] r rs (c # v' @ rest)
        = parseCsvFrom InField [c] r rs (v' @ rest)"
      by (auto simp: special_def)
    also have "\<dots> = parseCsvFrom InField (rev v' @ [c]) r rs rest"
      using v' by (rule plain_in_field)
    also have "\<dots> = fieldDone v r rs rest"
      using assms(1) Cons by (simp add: in_field_done)
    finally show ?thesis
      using False Cons by (simp add: quoteCell_eq)
  qed
qed

lemma row_roundtrip:
  assumes "lineEnd rest" and "vs \<noteq> []" and "length vs \<ge> 2 \<or> r \<noteq> [] \<or> rest \<noteq> []"
  shows "parseCsvFrom FieldStart [] r rs (joinWith 44 (map quoteCell vs) @ rest)
     = rowDone (rev r @ vs) rs rest"
  using assms
proof (induction vs arbitrary: r)
  case Nil
  then show ?case by simp
next
  case (Cons v vs)
  show ?case
  proof (cases vs)
    case Nil
    have b: "boundary rest" using Cons.prems(1) by (auto simp: boundary_def lineEnd_def split: list.splits)
    have "v \<noteq> [] \<or> r \<noteq> [] \<or> rest \<noteq> []" using Cons.prems(3) Nil by auto
    from field_roundtrip[OF b this] show ?thesis
      using Nil Cons.prems(1)
      by (auto simp: fieldDone_def rowDone_def lineEnd_def split: list.splits)
  next
    case (Cons v2 vs')
    let ?rest = "44 # joinWith 44 (map quoteCell vs) @ rest"
    have b: "boundary ?rest" by (simp add: boundary_def)
    have "parseCsvFrom FieldStart [] r rs (quoteCell v @ ?rest) = fieldDone v r rs ?rest"
      by (rule field_roundtrip[OF b]) simp
    also have "\<dots> = parseCsvFrom FieldStart [] (v # r) rs (joinWith 44 (map quoteCell vs) @ rest)"
      by (simp add: fieldDone_def)
    also have "\<dots> = rowDone (rev (v # r) @ vs) rs rest"
      using Cons.prems(1) Cons by (intro Cons.IH) auto
    finally show ?thesis
      using Cons by simp
  qed
qed

lemma text_roundtrip:
  assumes "rows \<noteq> []" and "\<forall>vs \<in> set rows. length vs \<ge> 2"
  shows "parseCsvFrom FieldStart [] [] rs
           (joinWith 10 (map (\<lambda>vs. joinWith 44 (map quoteCell vs)) rows))
     = Inr (rev rs @ rows)"
  using assms
proof (induction rows arbitrary: rs)
  case Nil
  then show ?case by simp
next
  case (Cons vs rows)
  have vs: "vs \<noteq> []" "length vs \<ge> 2" using Cons.prems(2) by auto
  show ?case
  proof (cases rows)
    case Nil
    have "parseCsvFrom FieldStart [] [] rs (joinWith 44 (map quoteCell vs) @ [])
        = rowDone (rev [] @ vs) rs []"
      using vs by (intro row_roundtrip) (auto simp: lineEnd_def)
    then show ?thesis using Nil by (simp add: rowDone_def)
  next
    case (Cons vs2 rows')
    let ?tail = "joinWith 10 (map (\<lambda>vs. joinWith 44 (map quoteCell vs)) rows)"
    have "parseCsvFrom FieldStart [] [] rs (joinWith 44 (map quoteCell vs) @ 10 # ?tail)
        = rowDone (rev [] @ vs) rs (10 # ?tail)"
      using vs by (intro row_roundtrip) (auto simp: lineEnd_def)
    also have "\<dots> = parseCsvFrom FieldStart [] [] (vs # rs) ?tail"
      by (simp add: rowDone_def)
    also have "\<dots> = Inr (rev (vs # rs) @ rows)"
      using Cons.prems(2) Cons by (intro Cons.IH) auto
    finally show ?thesis using Cons by simp
  qed
qed


lemma header_plain: "map quoteCell manualColumns = manualColumns"
  by (simp add: manualColumns_def quoteCell_def doubleQuotes_def js_def)

lemma csvText_eq:
  "csvText rows
     = joinWith 10 (map (\<lambda>vs. joinWith 44 (map quoteCell vs))
         (manualColumns # map (\<lambda>r. map (cellValue r) manualColumns) rows))"
  by (simp add: csvText_def header_plain csvCell_def[abs_def] comp_def)

lemma joinWith_first: "x \<noteq> [] \<Longrightarrow> \<exists>t. joinWith sep (x # ys) = hd x # t"
  by (cases ys; cases x) auto

lemma csvText_no_bom: "stripBom (csvText rows) = csvText rows"
proof -
  have "joinWith 44 manualColumns \<noteq> [] \<and> hd (joinWith 44 manualColumns) = 80"
    by (simp add: manualColumns_def js_def)
  then obtain t where "csvText rows = 80 # t"
    unfolding csvText_def using joinWith_first by metis
  then show ?thesis by (simp add: stripBom_def)
qed

lemma zip_with_image: "zip ks (map f ks) = map (\<lambda>k. (k, f k)) ks"
  by (induction ks) auto

lemma parseCsv_csvText:
  "parseCsv (csvText rows) = Inr (manualColumns # map (\<lambda>r. map (cellValue r) manualColumns) rows)"
proof -
  let ?rows = "manualColumns # map (\<lambda>r. map (cellValue r) manualColumns) rows"
  have "length manualColumns = 9" by (simp add: manualColumns_def)
  then have "\<forall>vs \<in> set ?rows. length vs \<ge> 2" by auto
  then have "parseCsvFrom FieldStart [] [] []
               (joinWith 10 (map (\<lambda>vs. joinWith 44 (map quoteCell vs)) ?rows))
             = Inr (rev [] @ ?rows)"
    by (intro text_roundtrip) simp_all
  then show ?thesis
    unfolding parseCsv_def csvText_no_bom by (simp only: csvText_eq append_Nil rev.simps)
qed

text \<open>
  C9. The CSV text generated from the manual rows parses back to the header and, for
  every row, the trimmed cell values, with \<open>none\<close> in place of an empty risk-factor
  cell; a cell with a double quote, a comma or a line feed is written in double quotes
  with its double quotes doubled, and every other cell as it is. The parser is the
  model of the server's reader given above, which ends a record at a line feed only.
\<close>

theorem manual_csv_roundtrip:
  "parseCsv (csvText rows)
     = Inr (manualColumns # map (\<lambda>r. map (cellValue r) manualColumns) rows) \<and>
   parseDataset (csvText rows)
     = Inr \<lparr>pd_columns = manualColumns,
            pd_rows = map (\<lambda>r. map (\<lambda>k. (k, cellValue r k)) manualColumns) rows\<rparr> \<and>
   (\<forall>r k. cellValue r k
       = (if k = js ''M-Risk Factors'' \<and> trim (cell r k) = [] then js ''none'' else trim (cell r k))) \<and>
   (\<forall>r k. csvCell r k
       = (if \<exists>c \<in> set (cellValue r k). c = 34 \<or> c = 44 \<or> c = 10
          then 34 # doubleQuotes (cellValue r k) @ [34] else cellValue r k))"
proof (intro conjI allI)
  show "parseCsv (csvText rows)
     = Inr (manualColumns # map (\<lambda>r. map (cellValue r) manualColumns) rows)"
    by (rule parseCsv_csvText)
  then show "parseDataset (csvText rows)
     = Inr \<lparr>pd_columns = manualColumns,
            pd_rows = map (\<lambda>r. map (\<lambda>k. (k, cellValue r k)) manualColumns) rows\<rparr>"
    by (simp add: parseDataset_def zip_with_image comp_def)
next
  fix r k
  show "cellValue r k
       = (if k = js ''M-Risk Factors'' \<and> trim (cell r k) = [] then js ''none'' else trim (cell r k))"
    by (simp add: cellValue_def Let_def)
  show "csvCell r k
       = (if \<exists>c \<in> set (cellValue r k). c = 34 \<or> c = 44 \<or> c = 10
          then 34 # doubleQuotes (cellValue r k) @ [34] else cellValue r k)"
    by (simp add: csvCell_def quoteCell_eq list_ex_iff special_def)
qed


theorem manual_csv_roundtrip_witness:
  "parseCsv (csvText [emptyManualRow(js ''PersonID'' \<mapsto> js '' p,1 '', js ''Gender'' \<mapsto> [102, 34, 109])])
     = Inr [manualColumns, [js ''p,1'', [], [], js ''none'', [102, 34, 109], [], [], [], []]] \<and>
   csvCell (emptyManualRow(js ''PersonID'' \<mapsto> js '' p,1 '', js ''Gender'' \<mapsto> [102, 34, 109]))
     (js ''PersonID'') = [34, 112, 44, 49, 34] \<and>
   csvCell (emptyManualRow(js ''PersonID'' \<mapsto> js '' p,1 '', js ''Gender'' \<mapsto> [102, 34, 109]))
     (js ''Gender'') = [34, 102, 34, 34, 109, 34]"
  using manual_csv_roundtrip
    [of "[emptyManualRow(js ''PersonID'' \<mapsto> js '' p,1 '', js ''Gender'' \<mapsto> [102, 34, 109])]"]
  by (simp add: cellValue_def cell_def emptyManualRow_def manualColumns_def trim_def
      isWhiteSpace_def doubleQuotes_def js_def)

end
